theory Spec2Isabelle
  imports Main "HOL-Library.Word"
begin

unbundle bit_operations_syntax

section \<open>The checkpoint-to-PLY converter of \<^verbatim>\<open>examples/ckpt2splat.py\<close>\<close>

text \<open>
  The development embeds \<^verbatim>\<open>convert_checkpoint_to_ply\<close>, \<^verbatim>\<open>extract_data_from_ckpt\<close>
  and \<^verbatim>\<open>main\<close>. Conventions of the embedding:
  \<^item> a byte is an \<open>8 word\<close>; the output file is a list of bytes;
  \<^item> an array element is a 32-bit float, held as its IEEE-754 bit pattern (a
    \<open>32 word\<close>): the arithmetic of floats plays no part in the converter, which only
    copies elements to the file, a signalling NaN becoming quiet on the way. The
    narrowing of wider element types by \<^verbatim>\<open>struct.pack\<close> is outside the model;
  \<^item> an array is its shape and its elements in row-major order;
  \<^item> every exception of the source is a value of \<open>error\<close>;
  \<^item> the file system is a map from paths to contents. Opening the output file for
    writing succeeds and gives an empty buffer, every \<^verbatim>\<open>f.write\<close> appends to it, and the buffer
    is the content of the file when the \<^verbatim>\<open>with\<close> block is left, by its end or by
    an exception;
  \<^item> the progress lines printed by \<^verbatim>\<open>convert_checkpoint_to_ply\<close> are not modelled.
\<close>

subsection \<open>Data\<close>

type_synonym byte = "8 word"
type_synonym float32 = "32 word"

datatype error =
    KeyError string
  | ValueError
  | RuntimeError
  | IndexError
  | AssertionError string
  | StructError
  | UnicodeEncodeError

record ndarray =
  shape :: "nat list"
  data :: "float32 list"

text \<open>The invariant of an array: as many elements as the shape says.\<close>

definition wf_ndarray :: "ndarray \<Rightarrow> bool" where
  "wf_ndarray a \<longleftrightarrow> length (data a) = prod_list (shape a)"

text \<open>A value of the checkpoint dictionary: a torch tensor or a numpy array.\<close>

datatype pyval = Tensor ndarray | Array ndarray

type_synonym checkpoint = "string \<Rightarrow> pyval option"
type_synonym filesystem = "string \<Rightarrow> byte list option"

record arrays =
  means :: ndarray
  opacities :: ndarray
  quats :: ndarray
  scales :: ndarray
  sh0 :: ndarray
  shN :: ndarray

subsection \<open>Exceptions as values\<close>

definition bind_res :: "error + 'a \<Rightarrow> ('a \<Rightarrow> error + 'b) \<Rightarrow> error + 'b" where
  "bind_res m f = (case m of Inl e \<Rightarrow> Inl e | Inr x \<Rightarrow> f x)"

subsection \<open>Decimal rendering of a count (\<^verbatim>\<open>str(n)\<close> in an f-string)\<close>

definition digit_char :: "nat \<Rightarrow> char" where
  "digit_char d = ''0123456789'' ! d"

function str_nat :: "nat \<Rightarrow> string" where
  "str_nat n = (if n < 10 then [digit_char n] else str_nat (n div 10) @ [digit_char (n mod 10)])"
  by pat_completeness auto
termination
  by (relation "measure id") auto

declare str_nat.simps [simp del]

subsection \<open>Array operations\<close>

text \<open>\<^verbatim>\<open>x.detach().cpu().numpy()\<close> for a tensor; an array is left as it is.\<close>

fun to_numpy :: "pyval \<Rightarrow> ndarray" where
  "to_numpy (Tensor a) = a"
| "to_numpy (Array a) = a"

definition ndim :: "ndarray \<Rightarrow> nat" where
  "ndim a = length (shape a)"

text \<open>
  \<^verbatim>\<open>a.reshape(-1, w)\<close>: the row count is inferred from the number of elements, and
  numpy raises ValueError when that number is not a multiple of \<open>w\<close>.
\<close>

definition reshape_rows :: "ndarray \<Rightarrow> nat \<Rightarrow> error + ndarray" where
  "reshape_rows a w =
     (let sz = prod_list (shape a)
      in if w = 0 \<or> sz mod w \<noteq> 0 then Inl ValueError
         else Inr (a\<lparr>shape := [sz div w, w]\<rparr>))"

text \<open>\<^verbatim>\<open>if a.ndim == 1: a = a.reshape(-1, w)\<close>\<close>

definition ensure_2d :: "ndarray \<Rightarrow> nat \<Rightarrow> error + ndarray" where
  "ensure_2d a w = (if ndim a = 1 then reshape_rows a w else Inr a)"

text \<open>\<^verbatim>\<open>a.shape[0]\<close>: IndexError on a 0-dimensional array.\<close>

definition shape0 :: "ndarray \<Rightarrow> error + nat" where
  "shape0 a = (case shape a of [] \<Rightarrow> Inl IndexError | r # _ \<Rightarrow> Inr r)"

text \<open>
  \<^verbatim>\<open>a[i, j]\<close>: IndexError when the array has fewer than two dimensions or an index
  is out of range. On a 2-dimensional array the result is a scalar (shape \<open>[]\<close>); on
  an array of more dimensions it is the sub-array at row \<open>i\<close>, column \<open>j\<close>.
\<close>

definition getitem2 :: "ndarray \<Rightarrow> nat \<Rightarrow> nat \<Rightarrow> error + ndarray" where
  "getitem2 a i j =
     (case shape a of
        r # c # rest \<Rightarrow>
          if i < r \<and> j < c
          then (let s = prod_list rest
                in Inr \<lparr>shape = rest, data = take s (drop ((i * c + j) * s) (data a))\<rparr>)
          else Inl IndexError
      | _ \<Rightarrow> Inl IndexError)"

text \<open>A Python float constant as an argument of \<^verbatim>\<open>struct.pack\<close>.\<close>

definition scalar :: "float32 \<Rightarrow> ndarray" where
  "scalar v = \<lparr>shape = [], data = [v]\<rparr>"

subsection \<open>\<^verbatim>\<open>struct.pack\<close> with little-endian float fields\<close>

text \<open>
  A NaN has all exponent bits set and a mantissa that is not zero; bit 22 is its quiet
  bit. The element given to \<^verbatim>\<open>struct.pack\<close> is widened to a C double and narrowed
  again, which changes no value but sets the quiet bit of a signalling NaN.
\<close>

definition is_nan :: "float32 \<Rightarrow> bool" where
  "is_nan v \<longleftrightarrow> v AND 0x7F800000 = 0x7F800000 \<and> v AND 0x007FFFFF \<noteq> 0"

definition quiet_nan :: "float32 \<Rightarrow> float32" where
  "quiet_nan v = (if is_nan v then v OR 0x00400000 else v)"

text \<open>The four bytes of a 32-bit pattern, least significant first.\<close>

definition le_bytes :: "float32 \<Rightarrow> byte list" where
  "le_bytes v = [ucast v, ucast (drop_bit 8 v), ucast (drop_bit 16 v), ucast (drop_bit 24 v)]"

text \<open>One field of format \<^verbatim>\<open><f\<close>.\<close>

definition pack_f :: "float32 \<Rightarrow> byte list" where
  "pack_f v = le_bytes (quiet_nan v)"

text \<open>
  The conversion of an argument to a float: a scalar (an array of no dimension)
  converts; an array of one or more dimensions makes \<^verbatim>\<open>struct.pack\<close> raise
  \<^verbatim>\<open>struct.error\<close>, also when it has one element only (numpy 2; older versions
  converted that one with a warning).
\<close>

definition to_float :: "ndarray \<Rightarrow> error + float32" where
  "to_float x =
     (case shape x of
        [] \<Rightarrow> (case data x of [v] \<Rightarrow> Inr v | _ \<Rightarrow> Inl StructError)
      | _ \<Rightarrow> Inl StructError)"

text \<open>\<^verbatim>\<open>struct.pack('<f...f', x1, ..., xn)\<close>, one \<^verbatim>\<open>f\<close> for each argument.\<close>

fun struct_pack :: "ndarray list \<Rightarrow> error + byte list" where
  "struct_pack [] = Inr []"
| "struct_pack (x # xs) =
     bind_res (to_float x) (\<lambda>v. bind_res (struct_pack xs) (\<lambda>bs. Inr (pack_f v @ bs)))"

text \<open>
  The arguments \<^verbatim>\<open>a[i, j1], ..., a[i, jn]\<close> of one call, evaluated from left to
  right before the call is made.
\<close>

fun getitems :: "ndarray \<Rightarrow> nat \<Rightarrow> nat list \<Rightarrow> error + ndarray list" where
  "getitems a i [] = Inr []"
| "getitems a i (j # js) =
     bind_res (getitem2 a i j) (\<lambda>x. bind_res (getitems a i js) (\<lambda>xs. Inr (x # xs)))"

subsection \<open>Writing to the open file\<close>

text \<open>
  A step of the \<^verbatim>\<open>with\<close> block takes the bytes written so far and gives the exception
  raised, if any, and the bytes written after it.
\<close>

type_synonym writer = "byte list \<Rightarrow> error option \<times> byte list"

text \<open>
  \<^verbatim>\<open>f.write(e)\<close>: when the evaluation of the argument raises, nothing is written.
\<close>

definition f_write :: "error + byte list \<Rightarrow> writer" where
  "f_write packed buf = (case packed of Inl e \<Rightarrow> (Some e, buf) | Inr bs \<Rightarrow> (None, buf @ bs))"

definition then_write :: "writer \<Rightarrow> writer \<Rightarrow> writer" where
  "then_write w1 w2 buf = (case w1 buf of (Some e, b) \<Rightarrow> (Some e, b) | (None, b) \<Rightarrow> w2 b)"

fun for_loop :: "nat list \<Rightarrow> (nat \<Rightarrow> writer) \<Rightarrow> writer" where
  "for_loop [] body buf = (None, buf)"
| "for_loop (i # is) body buf =
     (case body i buf of (Some e, b) \<Rightarrow> (Some e, b) | (None, b) \<Rightarrow> for_loop is body b)"

text \<open>\<^verbatim>\<open>f.write(struct.pack('<f...f', a[i, j1], ..., a[i, jn]))\<close>\<close>

definition write_fields :: "ndarray \<Rightarrow> nat \<Rightarrow> nat list \<Rightarrow> writer" where
  "write_fields a i js = f_write (bind_res (getitems a i js) struct_pack)"

text \<open>The body of the loop over the vertices (lines 129 to 149).\<close>

definition write_vertex :: "arrays \<Rightarrow> nat \<Rightarrow> writer" where
  "write_vertex A i =
     then_write (write_fields (means A) i [0, 1, 2])
    (then_write (f_write (struct_pack [scalar 0, scalar 0, scalar 0]))
    (then_write (write_fields (sh0 A) i [0, 1, 2])
    (then_write (for_loop [0..<45] (\<lambda>j. write_fields (shN A) i [j]))
    (then_write (write_fields (opacities A) i [0])
    (then_write (write_fields (scales A) i [0, 1, 2])
                (write_fields (quats A) i [0, 1, 2, 3]))))))"

subsection \<open>The header\<close>

definition header_lines :: "nat \<Rightarrow> string list" where
  "header_lines num_vertices =
     foldl (\<lambda>header i. header @ [''property float f_rest_'' @ str_nat i])
       [''ply'',
        ''format binary_little_endian 1.0'',
        ''comment Generated by checkpoint converter'',
        ''comment Vertical Axis: z'',
        ''element vertex '' @ str_nat num_vertices,
        ''property float x'',
        ''property float y'',
        ''property float z'',
        ''property float nx'',
        ''property float ny'',
        ''property float nz'',
        ''property float f_dc_0'',
        ''property float f_dc_1'',
        ''property float f_dc_2'']
       [0..<45]
     @ [''property float opacity'',
        ''property float scale_0'',
        ''property float scale_1'',
        ''property float scale_2'',
        ''property float rot_0'',
        ''property float rot_1'',
        ''property float rot_2'',
        ''property float rot_3'',
        ''end_header'']"

definition newline :: char where
  "newline = CHR 0x0A"

text \<open>\<^verbatim>\<open>'\n'.join(lines)\<close>\<close>

fun join_nl :: "string list \<Rightarrow> string" where
  "join_nl [] = []"
| "join_nl [l] = l"
| "join_nl (l # ls) = l @ [newline] @ join_nl ls"

definition header_str :: "nat \<Rightarrow> string" where
  "header_str num_vertices = join_nl (header_lines num_vertices) @ [newline]"

text \<open>\<^verbatim>\<open>s.encode('ascii')\<close>: one byte for each character, which must be below 128.\<close>

definition encode_ascii :: "string \<Rightarrow> error + byte list" where
  "encode_ascii s =
     (if list_all (\<lambda>c. (of_char c :: nat) < 128) s then Inr (map of_char s)
      else Inl UnicodeEncodeError)"

subsection \<open>\<^verbatim>\<open>convert_checkpoint_to_ply\<close>\<close>

text \<open>\<^verbatim>\<open>d[k]\<close> on a dictionary.\<close>

definition lookup :: "(string \<Rightarrow> 'v option) \<Rightarrow> string \<Rightarrow> error + 'v" where
  "lookup d k = (case d k of None \<Rightarrow> Inl (KeyError k) | Some v \<Rightarrow> Inr v)"

text \<open>Lines 40 to 59: the six arrays are read from the dictionary, tensors become arrays.\<close>

definition load_arrays :: "checkpoint \<Rightarrow> error + arrays" where
  "load_arrays d =
     bind_res (lookup d ''means'') (\<lambda>m.
     bind_res (lookup d ''opacities'') (\<lambda>op.
     bind_res (lookup d ''quats'') (\<lambda>q.
     bind_res (lookup d ''scales'') (\<lambda>sc.
     bind_res (lookup d ''sh0'') (\<lambda>s0.
     bind_res (lookup d ''shN'') (\<lambda>sN.
       Inr \<lparr>means = to_numpy m, opacities = to_numpy op, quats = to_numpy q,
            scales = to_numpy sc, sh0 = to_numpy s0, shN = to_numpy sN\<rparr>))))))"

text \<open>Lines 62 to 73: one-dimensional arrays are reshaped.\<close>

definition ensure_shapes :: "arrays \<Rightarrow> error + arrays" where
  "ensure_shapes A =
     bind_res (ensure_2d (means A) 3) (\<lambda>m.
     bind_res (ensure_2d (opacities A) 1) (\<lambda>op.
     bind_res (ensure_2d (quats A) 4) (\<lambda>q.
     bind_res (ensure_2d (scales A) 3) (\<lambda>sc.
     bind_res (ensure_2d (sh0 A) 3) (\<lambda>s0.
     bind_res (ensure_2d (shN A) 45) (\<lambda>sN.
       Inr \<lparr>means = m, opacities = op, quats = q, scales = sc, sh0 = s0, shN = sN\<rparr>))))))"

text \<open>
  \<^verbatim>\<open>assert a.shape[0] == num_vertices, f"<Name> shape mismatch: {a.shape[0]} vs {num_vertices}"\<close>
\<close>

definition mismatch_message :: "string \<Rightarrow> nat \<Rightarrow> nat \<Rightarrow> string" where
  "mismatch_message name r n = name @ '' shape mismatch: '' @ str_nat r @ '' vs '' @ str_nat n"

definition assert_rows :: "string \<Rightarrow> ndarray \<Rightarrow> nat \<Rightarrow> error + unit" where
  "assert_rows name a n =
     bind_res (shape0 a) (\<lambda>r.
       if r = n then Inr () else Inl (AssertionError (mismatch_message name r n)))"

text \<open>Lines 75 to 82: the vertex count, and the five assertions.\<close>

definition verify_rows :: "arrays \<Rightarrow> error + nat" where
  "verify_rows A =
     bind_res (shape0 (means A)) (\<lambda>num_vertices.
     bind_res (assert_rows ''Opacities'' (opacities A) num_vertices) (\<lambda>_.
     bind_res (assert_rows ''Quats'' (quats A) num_vertices) (\<lambda>_.
     bind_res (assert_rows ''Scales'' (scales A) num_vertices) (\<lambda>_.
     bind_res (assert_rows ''SH0'' (sh0 A) num_vertices) (\<lambda>_.
     bind_res (assert_rows ''SHN'' (shN A) num_vertices) (\<lambda>_.
       Inr num_vertices))))))"

text \<open>Everything the function does before it opens the output file.\<close>

definition validate :: "checkpoint \<Rightarrow> error + arrays \<times> nat" where
  "validate d =
     bind_res (load_arrays d) (\<lambda>A.
     bind_res (ensure_shapes A) (\<lambda>A'.
     bind_res (verify_rows A') (\<lambda>num_vertices. Inr (A', num_vertices))))"

text \<open>The \<^verbatim>\<open>with\<close> block: the header, then one record for each vertex.\<close>

definition write_ply :: "arrays \<Rightarrow> nat \<Rightarrow> writer" where
  "write_ply A num_vertices =
     then_write (f_write (encode_ascii (header_str num_vertices)))
                (for_loop [0..<num_vertices] (write_vertex A))"

definition convert_checkpoint_to_ply ::
    "checkpoint \<Rightarrow> string \<Rightarrow> filesystem \<Rightarrow> error option \<times> filesystem" where
  "convert_checkpoint_to_ply checkpoint_data output_path fs =
     (case validate checkpoint_data of
        Inl e \<Rightarrow> (Some e, fs)
      | Inr (A, num_vertices) \<Rightarrow>
          (case write_ply A num_vertices [] of
             (r, buf) \<Rightarrow> (r, fs(output_path \<mapsto> buf))))"

subsection \<open>\<^verbatim>\<open>extract_data_from_ckpt\<close> and \<^verbatim>\<open>main\<close>\<close>

text \<open>
  \<^verbatim>\<open>v.reshape(n, w)\<close>: the number of elements must be \<open>n * w\<close>; torch raises
  RuntimeError and numpy ValueError otherwise.
\<close>

fun reshape_to :: "pyval \<Rightarrow> nat \<Rightarrow> nat \<Rightarrow> error + pyval" where
  "reshape_to (Tensor a) n w =
     (if prod_list (shape a) = n * w then Inr (Tensor (a\<lparr>shape := [n, w]\<rparr>))
      else Inl RuntimeError)"
| "reshape_to (Array a) n w =
     (if prod_list (shape a) = n * w then Inr (Array (a\<lparr>shape := [n, w]\<rparr>))
      else Inl ValueError)"

text \<open>
  The argument is the dictionary that \<^verbatim>\<open>torch.load\<close> returns; loading itself is
  outside the model.
\<close>

definition extract_data_from_ckpt :: "(string \<Rightarrow> checkpoint option) \<Rightarrow> error + checkpoint" where
  "extract_data_from_ckpt ckpt =
     bind_res (lookup ckpt ''splats'') (\<lambda>splats.
     bind_res (lookup splats ''means'') (\<lambda>m.
     bind_res (shape0 (to_numpy m)) (\<lambda>N.
     bind_res (lookup splats ''opacities'') (\<lambda>op.
     bind_res (reshape_to op N 1) (\<lambda>op'.
     (let splats1 = splats(''opacities'' \<mapsto> op') in
     bind_res (lookup splats1 ''sh0'') (\<lambda>s0.
     bind_res (reshape_to s0 N 3) (\<lambda>s0'.
     (let splats2 = splats1(''sh0'' \<mapsto> s0') in
     bind_res (lookup splats2 ''shN'') (\<lambda>sN.
     bind_res (reshape_to sN N 45) (\<lambda>sN'.
       Inr (splats2(''shN'' \<mapsto> sN')))))))))))))"

definition required_keys :: "string list" where
  "required_keys = [''means'', ''opacities'', ''quats'', ''scales'', ''sh0'', ''shN'']"

text \<open>How an f-string shows a list of strings: \<^verbatim>\<open>['quats', 'scales']\<close>.\<close>

fun repr_items :: "string list \<Rightarrow> string" where
  "repr_items [] = []"
| "repr_items [k] = [CHR 0x27] @ k @ [CHR 0x27]"
| "repr_items (k # ks) = [CHR 0x27] @ k @ [CHR 0x27] @ '', '' @ repr_items ks"

definition repr_list :: "string list \<Rightarrow> string" where
  "repr_list ks = ''['' @ repr_items ks @ '']''"

text \<open>
  What a run of \<^verbatim>\<open>main\<close> leaves: the exception that ended it, if any, the warning it
  printed, if any, and the file system.
\<close>

record run =
  raised :: "error option"
  warning :: "string option"
  files :: filesystem

definition main :: "(string \<Rightarrow> checkpoint option) \<Rightarrow> string \<Rightarrow> filesystem \<Rightarrow> run" where
  "main ckpt output_path fs =
     (case extract_data_from_ckpt ckpt of
        Inl e \<Rightarrow> \<lparr>raised = Some e, warning = None, files = fs\<rparr>
      | Inr splat_data \<Rightarrow>
          (let missing_keys = filter (\<lambda>key. splat_data key = None) required_keys
           in if missing_keys \<noteq> []
              then \<lparr>raised = None,
                    warning = Some (''Warning: Missing required keys: '' @ repr_list missing_keys),
                    files = fs\<rparr>
              else (case convert_checkpoint_to_ply splat_data output_path fs of
                      (r, fs') \<Rightarrow> \<lparr>raised = r, warning = None, files = fs'\<rparr>)))"

subsection \<open>The layout the output is compared with\<close>

text \<open>
  The element \<open>a[i, j]\<close> of a 2-dimensional array, the 62 values of the record of
  vertex \<open>i\<close> in the order position, normal, sh0, shN, opacity, scale, rotation, and
  the bytes they make.
\<close>

definition cell :: "ndarray \<Rightarrow> nat \<Rightarrow> nat \<Rightarrow> float32" where
  "cell a i j = data a ! (i * (shape a ! 1) + j)"

definition vertex_values :: "arrays \<Rightarrow> nat \<Rightarrow> float32 list" where
  "vertex_values A i =
     map (cell (means A) i) [0, 1, 2] @
     [0, 0, 0] @
     map (cell (sh0 A) i) [0, 1, 2] @
     map (cell (shN A) i) [0..<45] @
     map (cell (opacities A) i) [0] @
     map (cell (scales A) i) [0, 1, 2] @
     map (cell (quats A) i) [0, 1, 2, 3]"

definition vertex_bytes :: "arrays \<Rightarrow> nat \<Rightarrow> byte list" where
  "vertex_bytes A i = concat (map pack_f (vertex_values A i))"

definition body_bytes :: "arrays \<Rightarrow> nat \<Rightarrow> byte list" where
  "body_bytes A n = concat (map (vertex_bytes A) [0..<n])"

definition header_bytes :: "nat \<Rightarrow> byte list" where
  "header_bytes n = map of_char (header_str n)"

definition grid :: "nat \<Rightarrow> nat \<Rightarrow> ndarray \<Rightarrow> bool" where
  "grid n w a \<longleftrightarrow>
     wf_ndarray a \<and> (case shape a of [r, c] \<Rightarrow> r = n \<and> w \<le> c | _ \<Rightarrow> False)"

definition grids :: "arrays \<Rightarrow> nat \<Rightarrow> bool" where
  "grids A n \<longleftrightarrow>
     grid n 3 (means A) \<and> grid n 1 (opacities A) \<and> grid n 4 (quats A) \<and>
     grid n 3 (scales A) \<and> grid n 3 (sh0 A) \<and> grid n 45 (shN A)"

text \<open>
  The arrays as the converter sees them after its reshaping step, and the inputs the
  statements are about: a valid splat set of \<open>n\<close> vertices has its six arrays in
  the canonical shape \<open>(n, width)\<close>, or flattened to one dimension.
\<close>

definition as_2d :: "ndarray \<Rightarrow> nat \<Rightarrow> ndarray" where
  "as_2d a w = (if ndim a = 1 then a\<lparr>shape := [prod_list (shape a) div w, w]\<rparr> else a)"

definition field :: "checkpoint \<Rightarrow> string \<Rightarrow> ndarray" where
  "field d k = (case d k of Some v \<Rightarrow> to_numpy v | None \<Rightarrow> \<lparr>shape = [], data = []\<rparr>)"

definition arrays_of :: "checkpoint \<Rightarrow> arrays" where
  "arrays_of d =
     \<lparr>means = as_2d (field d ''means'') 3, opacities = as_2d (field d ''opacities'') 1,
      quats = as_2d (field d ''quats'') 4, scales = as_2d (field d ''scales'') 3,
      sh0 = as_2d (field d ''sh0'') 3, shN = as_2d (field d ''shN'') 45\<rparr>"

definition fields :: "(string \<times> nat) list" where
  "fields = [(''means'', 3), (''opacities'', 1), (''quats'', 4), (''scales'', 3),
             (''sh0'', 3), (''shN'', 45)]"

definition canonical :: "nat \<Rightarrow> nat \<Rightarrow> ndarray \<Rightarrow> bool" where
  "canonical n w a \<longleftrightarrow> wf_ndarray a \<and> (shape a = [n, w] \<or> shape a = [n * w])"

definition valid_splatset :: "checkpoint \<Rightarrow> nat \<Rightarrow> bool" where
  "valid_splatset d n \<longleftrightarrow>
     list_all (\<lambda>(k, w). d k \<noteq> None \<and> canonical n w (field d k)) fields"

definition flat_or_wide :: "nat \<Rightarrow> nat \<Rightarrow> ndarray \<Rightarrow> bool" where
  "flat_or_wide n w a \<longleftrightarrow>
     wf_ndarray a \<and>
     (case shape a of [l] \<Rightarrow> l = n * w | [r, c] \<Rightarrow> r = n \<and> w \<le> c | _ \<Rightarrow> False)"

definition encodable :: "checkpoint \<Rightarrow> nat \<Rightarrow> bool" where
  "encodable d n \<longleftrightarrow>
     list_all (\<lambda>(k, w). d k \<noteq> None \<and> flat_or_wide n w (field d k)) fields"

text \<open>The scenario of one vertex.\<close>

definition scenario :: checkpoint where
  "scenario =
     [''means'' \<mapsto> Array \<lparr>shape = [1, 3], data = [0x3F800000, 0x40000000, 0x40400000]\<rparr>,
      ''opacities'' \<mapsto> Array \<lparr>shape = [1, 1], data = [0x3F000000]\<rparr>,
      ''quats'' \<mapsto> Array \<lparr>shape = [1, 4], data = [0x3F800000, 0, 0, 0]\<rparr>,
      ''scales'' \<mapsto> Array \<lparr>shape = [1, 3], data = [0x3DCCCCCD, 0x3DCCCCCD, 0x3DCCCCCD]\<rparr>,
      ''sh0'' \<mapsto> Array \<lparr>shape = [1, 3], data = [0x3E4CCCCD, 0x3E99999A, 0x3ECCCCCD]\<rparr>,
      ''shN'' \<mapsto> Array \<lparr>shape = [1, 45], data = replicate 45 0\<rparr>]"

text \<open>The body expected for the scenario, byte by byte.\<close>

definition scenario_body :: "byte list" where
  "scenario_body =
     [0x00, 0x00, 0x80, 0x3F,  0x00, 0x00, 0x00, 0x40,  0x00, 0x00, 0x40, 0x40] @
     replicate 12 0 @
     [0xCD, 0xCC, 0x4C, 0x3E,  0x9A, 0x99, 0x99, 0x3E,  0xCD, 0xCC, 0xCC, 0x3E] @
     replicate 180 0 @
     [0x00, 0x00, 0x00, 0x3F] @
     [0xCD, 0xCC, 0xCC, 0x3D,  0xCD, 0xCC, 0xCC, 0x3D,  0xCD, 0xCC, 0xCC, 0x3D] @
     [0x00, 0x00, 0x80, 0x3F] @ replicate 12 0"

text \<open>Two vertices, every array a flattened tensor.\<close>

definition two_flat :: checkpoint where
  "two_flat =
     [''means'' \<mapsto> Tensor \<lparr>shape = [6], data = [1, 2, 3, 4, 5, 6]\<rparr>,
      ''opacities'' \<mapsto> Tensor \<lparr>shape = [2], data = [7, 8]\<rparr>,
      ''quats'' \<mapsto> Tensor \<lparr>shape = [8], data = [9, 10, 11, 12, 13, 14, 15, 16]\<rparr>,
      ''scales'' \<mapsto> Tensor \<lparr>shape = [6], data = [17, 18, 19, 20, 21, 22]\<rparr>,
      ''sh0'' \<mapsto> Tensor \<lparr>shape = [6], data = [23, 24, 25, 26, 27, 28]\<rparr>,
      ''shN'' \<mapsto> Tensor \<lparr>shape = [90], data = replicate 90 0\<rparr>]"

text \<open>A splat set of no vertex.\<close>

definition no_vertices :: checkpoint where
  "no_vertices =
     [''means'' \<mapsto> Array \<lparr>shape = [0, 3], data = []\<rparr>,
      ''opacities'' \<mapsto> Array \<lparr>shape = [0, 1], data = []\<rparr>,
      ''quats'' \<mapsto> Array \<lparr>shape = [0, 4], data = []\<rparr>,
      ''scales'' \<mapsto> Array \<lparr>shape = [0, 3], data = []\<rparr>,
      ''sh0'' \<mapsto> Array \<lparr>shape = [0, 3], data = []\<rparr>,
      ''shN'' \<mapsto> Array \<lparr>shape = [0, 45], data = []\<rparr>]"

text \<open>The names of the 62 properties, in the order of the format.\<close>

definition property_names :: "string list" where
  "property_names =
     [''x'', ''y'', ''z'', ''nx'', ''ny'', ''nz'', ''f_dc_0'', ''f_dc_1'', ''f_dc_2'',
      ''f_rest_0'', ''f_rest_1'', ''f_rest_2'', ''f_rest_3'', ''f_rest_4'', ''f_rest_5'',
      ''f_rest_6'', ''f_rest_7'', ''f_rest_8'', ''f_rest_9'', ''f_rest_10'', ''f_rest_11'',
      ''f_rest_12'', ''f_rest_13'', ''f_rest_14'', ''f_rest_15'', ''f_rest_16'', ''f_rest_17'',
      ''f_rest_18'', ''f_rest_19'', ''f_rest_20'', ''f_rest_21'', ''f_rest_22'', ''f_rest_23'',
      ''f_rest_24'', ''f_rest_25'', ''f_rest_26'', ''f_rest_27'', ''f_rest_28'', ''f_rest_29'',
      ''f_rest_30'', ''f_rest_31'', ''f_rest_32'', ''f_rest_33'', ''f_rest_34'', ''f_rest_35'',
      ''f_rest_36'', ''f_rest_37'', ''f_rest_38'', ''f_rest_39'', ''f_rest_40'', ''f_rest_41'',
      ''f_rest_42'', ''f_rest_43'', ''f_rest_44'',
      ''opacity'', ''scale_0'', ''scale_1'', ''scale_2'', ''rot_0'', ''rot_1'', ''rot_2'',
      ''rot_3'']"

text \<open>The lines of the header as the format describes them.\<close>

definition spec_header_lines :: "nat \<Rightarrow> string list" where
  "spec_header_lines n =
     [''ply'', ''format binary_little_endian 1.0'',
      ''comment Generated by checkpoint converter'', ''comment Vertical Axis: z'',
      ''element vertex '' @ str_nat n]
     @ map (\<lambda>name. ''property float '' @ name) property_names
     @ [''end_header'']"

text \<open>
  Inputs whose arrays are two-dimensional with \<open>n\<close> rows and at least the canonical
  number of columns, and the same inputs cut down to the canonical columns.
\<close>

definition wide_splatset :: "checkpoint \<Rightarrow> nat \<Rightarrow> bool" where
  "wide_splatset d n \<longleftrightarrow>
     list_all (\<lambda>(k, w). d k \<noteq> None \<and> grid n w (field d k)) fields"

definition crop_columns :: "ndarray \<Rightarrow> nat \<Rightarrow> ndarray" where
  "crop_columns a w =
     (case shape a of
        [r, c] \<Rightarrow> \<lparr>shape = [r, w],
                    data = concat (map (\<lambda>i. take w (drop (i * c) (data a))) [0..<r])\<rparr>
      | _ \<Rightarrow> a)"

definition crop_splats :: "checkpoint \<Rightarrow> checkpoint" where
  "crop_splats d k =
     (case map_of fields k of
        None \<Rightarrow> d k
      | Some w \<Rightarrow> map_option (\<lambda>v. Array (crop_columns (to_numpy v) w)) (d k))"

text \<open>The scenario with two more columns of positions and one more of opacities.\<close>

definition wide_scenario :: checkpoint where
  "wide_scenario =
     scenario
       (''means'' \<mapsto> Array \<lparr>shape = [1, 5],
                               data = [0x3F800000, 0x40000000, 0x40400000, 0x40800000, 0x40A00000]\<rparr>,
        ''opacities'' \<mapsto> Tensor \<lparr>shape = [1, 2], data = [0x3F000000, 0x3F400000]\<rparr>)"

text \<open>
  The scenario again, the positions held in a tensor and a key more in the
  dictionary.
\<close>

definition scenario_tensor :: checkpoint where
  "scenario_tensor =
     scenario
       (''means'' \<mapsto> Tensor \<lparr>shape = [1, 3], data = [0x3F800000, 0x40000000, 0x40400000]\<rparr>,
        ''step'' \<mapsto> Tensor \<lparr>shape = [], data = [0]\<rparr>)"

text \<open>
  The leading dimension of the array under a key, once a one-dimensional array is
  reshaped to the width \<open>w\<close>: undefined when the key is absent, when the reshaping
  fails or when the array has no dimension.
\<close>

definition rows_of :: "checkpoint \<Rightarrow> string \<Rightarrow> nat \<Rightarrow> nat option" where
  "rows_of d k w =
     (case d k of
        None \<Rightarrow> None
      | Some v \<Rightarrow>
          (case bind_res (ensure_2d (to_numpy v) w) shape0 of
             Inl _ \<Rightarrow> None
           | Inr r \<Rightarrow> Some r))"

text \<open>The scenario with two rows of rotations.\<close>

definition two_quats :: checkpoint where
  "two_quats =
     scenario
       (''quats'' \<mapsto> Array \<lparr>shape = [2, 4], data = [0x3F800000, 0, 0, 0, 0x3F800000, 0, 0, 0]\<rparr>)"





text \<open>
  The dictionary \<open>splats\<close> of a checkpoint of one vertex, with tensors in the shapes the
  training code saves, and checkpoints in which keys are missing.
\<close>

definition splats_tensors :: checkpoint where
  "splats_tensors =
     [''means'' \<mapsto> Tensor \<lparr>shape = [1, 3], data = [0x3F800000, 0x40000000, 0x40400000]\<rparr>,
      ''opacities'' \<mapsto> Tensor \<lparr>shape = [1], data = [0x3F000000]\<rparr>,
      ''quats'' \<mapsto> Tensor \<lparr>shape = [1, 4], data = [0x3F800000, 0, 0, 0]\<rparr>,
      ''scales'' \<mapsto> Tensor \<lparr>shape = [1, 3], data = [0x3DCCCCCD, 0x3DCCCCCD, 0x3DCCCCCD]\<rparr>,
      ''sh0'' \<mapsto> Tensor \<lparr>shape = [1, 1, 3], data = [0x3E4CCCCD, 0x3E99999A, 0x3ECCCCCD]\<rparr>,
      ''shN'' \<mapsto> Tensor \<lparr>shape = [1, 15, 3], data = replicate 45 0\<rparr>]"

definition ckpt_no_opacities :: "string \<Rightarrow> checkpoint option" where
  "ckpt_no_opacities = [''splats'' \<mapsto> splats_tensors (''opacities'' := None)]"

definition ckpt_no_quats_long_opacities :: "string \<Rightarrow> checkpoint option" where
  "ckpt_no_quats_long_opacities =
     [''splats'' \<mapsto> splats_tensors
        (''quats'' := None,
         ''opacities'' \<mapsto> Tensor \<lparr>shape = [2], data = [0x3F000000, 0x3F400000]\<rparr>)]"

definition ckpt_no_quats :: "string \<Rightarrow> checkpoint option" where
  "ckpt_no_quats = [''splats'' \<mapsto> splats_tensors (''quats'' := None)]"

text \<open>A step of the \<^verbatim>\<open>with\<close> block only adds to the bytes written so far.\<close>

definition appends :: "writer \<Rightarrow> bool" where
  "appends w \<longleftrightarrow> (\<forall>buf. \<exists>bs. snd (w buf) = buf @ bs)"

text \<open>The exceptions that a step of the \<^verbatim>\<open>with\<close> block can raise.\<close>

definition raises_only :: "error set \<Rightarrow> writer \<Rightarrow> bool" where
  "raises_only S w \<longleftrightarrow> (\<forall>buf e. fst (w buf) = Some e \<longrightarrow> e \<in> S)"

section \<open>Properties\<close>

subsection \<open>Auxiliary facts\<close>

lemma bind_res_Inr [simp]: "bind_res (Inr x) f = f x"
  by (simp add: bind_res_def)
lemma bind_res_Inl [simp]: "bind_res (Inl e) f = Inl e"
  by (simp add: bind_res_def)

lemma digits_ascii: "list_all (\<lambda>d. (of_char (digit_char d) :: nat) < 128) [0..<10]"
  by code_simp

lemma digit_ascii: "d < 10 \<Longrightarrow> (of_char (digit_char d) :: nat) < 128"
  using digits_ascii by (simp add: list_all_iff del: upt_Suc)

lemma str_nat_ascii: "list_all (\<lambda>c. (of_char c :: nat) < 128) (str_nat n)"
proof (induction n rule: str_nat.induct)
  case (1 n)
  show ?case
  proof (cases "n < 10")
    case True
    then show ?thesis by (subst str_nat.simps) (simp add: digit_ascii)
  next
    case False
    with 1 show ?thesis by (subst str_nat.simps) (simp add: digit_ascii)
  qed
qed

lemma foldl_snoc_map: "foldl (\<lambda>h i. h @ [g i]) h0 xs = h0 @ map g xs"
  by (induction xs arbitrary: h0) simp_all

lemma join_nl_Cons: "join_nl (l # ls) = (if ls = [] then l else l @ [newline] @ join_nl ls)"
  by (cases ls) simp_all

lemma join_nl_all:
  "P newline \<Longrightarrow> \<forall>l\<in>set ls. list_all P l \<Longrightarrow> list_all P (join_nl ls)"
  by (induction ls rule: join_nl.induct) simp_all

lemma header_lines_map:
  "header_lines n =
     [''ply'', ''format binary_little_endian 1.0'',
      ''comment Generated by checkpoint converter'', ''comment Vertical Axis: z'',
      ''element vertex '' @ str_nat n,
      ''property float x'', ''property float y'', ''property float z'',
      ''property float nx'', ''property float ny'', ''property float nz'',
      ''property float f_dc_0'', ''property float f_dc_1'', ''property float f_dc_2'']
     @ map (\<lambda>i. ''property float f_rest_'' @ str_nat i) [0..<45]
     @ [''property float opacity'', ''property float scale_0'', ''property float scale_1'',
        ''property float scale_2'', ''property float rot_0'', ''property float rot_1'',
        ''property float rot_2'', ''property float rot_3'', ''end_header'']"
  unfolding header_lines_def foldl_snoc_map by simp

lemma header_str_ascii: "list_all (\<lambda>c. (of_char c :: nat) < 128) (header_str n)"
  unfolding header_str_def
  by (simp add: join_nl_all header_lines_map newline_def str_nat_ascii del: upt_Suc)

lemma encode_header: "encode_ascii (header_str n) = Inr (map of_char (header_str n))"
  by (simp add: encode_ascii_def header_str_ascii)

lemma gridE:
  assumes "grid n w a"
  obtains c where "shape a = [n, c]" "w \<le> c" "length (data a) = n * c"
  using assms unfolding grid_def wf_ndarray_def
  by (auto split: list.splits)

lemma take1_drop: "k < length xs \<Longrightarrow> take (Suc 0) (drop k xs) = [xs ! k]"
  by (metis Cons_nth_drop_Suc take_0 take_Suc_Cons)

lemma flat_index: "i < n \<Longrightarrow> j < c \<Longrightarrow> i * c + j < n * (c::nat)"
proof -
  assume a: "i < n" "j < c"
  then have "i * c + j < Suc i * c" by simp
  also from a have "\<dots> \<le> n * c" by (intro mult_le_mono1) simp
  finally show ?thesis .
qed

lemma getitem2_grid:
  assumes "grid n w a" "i < n" "j < w"
  shows "getitem2 a i j = Inr (scalar (cell a i j))"
proof -
  from assms(1) obtain c where c: "shape a = [n, c]" "w \<le> c" "length (data a) = n * c"
    by (rule gridE)
  with assms have "i * c + j < length (data a)" by (simp add: flat_index)
  with c assms show ?thesis
    by (simp add: getitem2_def scalar_def cell_def take1_drop)
qed

lemma getitems_grid:
  assumes "grid n w a" "i < n" "\<forall>j\<in>set js. j < w"
  shows "getitems a i js = Inr (map (\<lambda>j. scalar (cell a i j)) js)"
  using assms(3) by (induction js) (simp_all add: getitem2_grid [OF assms(1,2)])

lemma to_float_scalar [simp]: "to_float (scalar v) = Inr v"
  by (simp add: to_float_def scalar_def)

lemma struct_pack_scalars: "struct_pack (map scalar vs) = Inr (concat (map pack_f vs))"
  by (induction vs) simp_all

lemma write_fields_grid:
  assumes "grid n w a" "i < n" "\<forall>j\<in>set js. j < w"
  shows "write_fields a i js buf = (None, buf @ concat (map pack_f (map (cell a i) js)))"
proof -
  have "map (\<lambda>j. scalar (cell a i j)) js = map scalar (map (cell a i) js)" by simp
  then show ?thesis
    by (simp only: write_fields_def getitems_grid [OF assms] bind_res_Inr struct_pack_scalars
        f_write_def sum.case)
qed

lemma then_write_ok:
  "w1 buf = (None, b) \<Longrightarrow> then_write w1 w2 buf = w2 b"
  by (simp add: then_write_def)

lemma for_loop_ok:
  assumes "\<And>i buf. i \<in> set is \<Longrightarrow> body i buf = (None, buf @ g i)"
  shows "for_loop is body buf = (None, buf @ concat (map g is))"
  using assms by (induction "is" arbitrary: buf) simp_all

lemma write_vertex_grids:
  assumes "grids A n" "i < n"
  shows "write_vertex A i buf = (None, buf @ vertex_bytes A i)"
proof -
  from assms(1) have g: "grid n 3 (means A)" "grid n 1 (opacities A)" "grid n 4 (quats A)"
    "grid n 3 (scales A)" "grid n 3 (sh0 A)" "grid n 45 (shN A)"
    by (simp_all add: grids_def)
  note i = assms(2)
  have m: "write_fields (means A) i [0, 1, 2] b = (None, b @ concat (map pack_f (map (cell (means A) i) [0, 1, 2])))" for b
    by (rule write_fields_grid [OF g(1) i]) simp
  have z: "f_write (struct_pack [scalar 0, scalar 0, scalar 0]) b = (None, b @ concat (map pack_f [0, 0, 0]))" for b
    using struct_pack_scalars [of "[0, 0, 0]"] by (simp add: f_write_def)
  have s0: "write_fields (sh0 A) i [0, 1, 2] b = (None, b @ concat (map pack_f (map (cell (sh0 A) i) [0, 1, 2])))" for b
    by (rule write_fields_grid [OF g(5) i]) simp
  have sN: "for_loop [0..<45] (\<lambda>j. write_fields (shN A) i [j]) b
      = (None, b @ concat (map (\<lambda>j. pack_f (cell (shN A) i j)) [0..<45]))" for b
  proof (rule for_loop_ok)
    fix j buf assume "j \<in> set [0..<45]"
    then have "\<forall>j'\<in>set [j]. j' < 45" by simp
    from write_fields_grid [OF g(6) i this]
    show "write_fields (shN A) i [j] buf = (None, buf @ pack_f (cell (shN A) i j))" by simp
  qed
  have op: "write_fields (opacities A) i [0] b = (None, b @ concat (map pack_f (map (cell (opacities A) i) [0])))" for b
    by (rule write_fields_grid [OF g(2) i]) simp
  have sc: "write_fields (scales A) i [0, 1, 2] b = (None, b @ concat (map pack_f (map (cell (scales A) i) [0, 1, 2])))" for b
    by (rule write_fields_grid [OF g(4) i]) simp
  have q: "write_fields (quats A) i [0, 1, 2, 3] b = (None, b @ concat (map pack_f (map (cell (quats A) i) [0, 1, 2, 3])))" for b
    by (rule write_fields_grid [OF g(3) i]) simp
  show ?thesis
    unfolding write_vertex_def vertex_bytes_def vertex_values_def
    by (simp only: then_write_ok [OF m] then_write_ok [OF z] then_write_ok [OF s0]
        then_write_ok [OF sN] then_write_ok [OF op] then_write_ok [OF sc] q
        map_append concat_append append_assoc map_map o_def)
qed

lemma write_ply_grids:
  assumes "grids A n"
  shows "write_ply A n [] = (None, header_bytes n @ body_bytes A n)"
proof -
  have h: "f_write (encode_ascii (header_str n)) [] = (None, header_bytes n)"
    by (simp add: encode_header f_write_def header_bytes_def)
  have "for_loop [0..<n] (write_vertex A) b = (None, b @ concat (map (vertex_bytes A) [0..<n]))" for b
    by (rule for_loop_ok) (simp add: write_vertex_grids [OF assms])
  with h show ?thesis
    unfolding write_ply_def body_bytes_def by (simp add: then_write_def)
qed

lemma canonical_flat_or_wide: "canonical n w a \<Longrightarrow> flat_or_wide n w a"
  by (auto simp: canonical_def flat_or_wide_def)

lemma valid_encodable: "valid_splatset d n \<Longrightarrow> encodable d n"
  by (simp add: valid_splatset_def encodable_def fields_def canonical_flat_or_wide)

lemma ensure_2d_flat_or_wide:
  assumes "flat_or_wide n w a" "0 < w"
  shows "ensure_2d a w = Inr (as_2d a w)" and "grid n w (as_2d a w)"
  using assms
  by (auto simp: flat_or_wide_def ensure_2d_def as_2d_def ndim_def reshape_rows_def grid_def
      wf_ndarray_def split: list.splits)

lemma load_arrays_present:
  assumes "\<forall>k\<in>set required_keys. d k \<noteq> None"
  shows "load_arrays d =
     Inr \<lparr>means = field d ''means'', opacities = field d ''opacities'',
          quats = field d ''quats'', scales = field d ''scales'',
          sh0 = field d ''sh0'', shN = field d ''shN''\<rparr>"
  using assms
  by (auto simp: load_arrays_def lookup_def field_def required_keys_def)

lemma encodable_present: "encodable d n \<Longrightarrow> \<forall>k\<in>set required_keys. d k \<noteq> None"
  by (simp add: encodable_def fields_def required_keys_def)

lemma shape0_grid: "grid n w a \<Longrightarrow> shape0 a = Inr n"
  by (auto simp: grid_def shape0_def split: list.splits)

lemma assert_rows_grid: "grid n w a \<Longrightarrow> assert_rows name a n = Inr ()"
  by (simp add: assert_rows_def shape0_grid)

lemma verify_rows_grids:
  assumes "grids A n"
  shows "verify_rows A = Inr n"
proof -
  from assms have g: "grid n 3 (means A)" "grid n 1 (opacities A)" "grid n 4 (quats A)"
    "grid n 3 (scales A)" "grid n 3 (sh0 A)" "grid n 45 (shN A)"
    unfolding grids_def by blast+
  show ?thesis
    by (simp add: verify_rows_def shape0_grid [OF g(1)] assert_rows_grid [OF g(2)]
        assert_rows_grid [OF g(3)] assert_rows_grid [OF g(4)] assert_rows_grid [OF g(5)]
        assert_rows_grid [OF g(6)])
qed

lemma encodable_fields:
  assumes "encodable d n"
  shows "flat_or_wide n 3 (field d ''means'')" "flat_or_wide n 1 (field d ''opacities'')"
    "flat_or_wide n 4 (field d ''quats'')" "flat_or_wide n 3 (field d ''scales'')"
    "flat_or_wide n 3 (field d ''sh0'')" "flat_or_wide n 45 (field d ''shN'')"
  using assms by (simp_all add: encodable_def fields_def)

lemma encodable_validate:
  assumes "encodable d n"
  shows "validate d = Inr (arrays_of d, n)" and "grids (arrays_of d) n"
proof -
  note f = encodable_fields [OF assms]
  show g: "grids (arrays_of d) n"
    unfolding grids_def arrays_of_def arrays.simps
    by (intro conjI ensure_2d_flat_or_wide(2) f) simp_all
  have e: "ensure_2d (field d ''means'') 3 = Inr (as_2d (field d ''means'') 3)"
    "ensure_2d (field d ''opacities'') 1 = Inr (as_2d (field d ''opacities'') 1)"
    "ensure_2d (field d ''quats'') 4 = Inr (as_2d (field d ''quats'') 4)"
    "ensure_2d (field d ''scales'') 3 = Inr (as_2d (field d ''scales'') 3)"
    "ensure_2d (field d ''sh0'') 3 = Inr (as_2d (field d ''sh0'') 3)"
    "ensure_2d (field d ''shN'') 45 = Inr (as_2d (field d ''shN'') 45)"
    by (rule ensure_2d_flat_or_wide(1), rule f, simp)+
  have "ensure_shapes \<lparr>means = field d ''means'', opacities = field d ''opacities'',
          quats = field d ''quats'', scales = field d ''scales'',
          sh0 = field d ''sh0'', shN = field d ''shN''\<rparr> = Inr (arrays_of d)"
    unfolding ensure_shapes_def arrays_of_def arrays.simps e bind_res_Inr ..
  then show "validate d = Inr (arrays_of d, n)"
    by (simp add: validate_def load_arrays_present [OF encodable_present [OF assms]]
        verify_rows_grids [OF g])
qed

lemma convert_encodable:
  assumes "encodable d n"
  shows "convert_checkpoint_to_ply d p fs =
           (None, fs(p \<mapsto> header_bytes n @ body_bytes (arrays_of d) n))"
  by (simp add: convert_checkpoint_to_ply_def encodable_validate [OF assms] write_ply_grids)

lemma length_pack_f [simp]: "length (pack_f v) = 4"
  by (simp add: pack_f_def le_bytes_def)

lemma length_concat_const:
  "(\<And>x. x \<in> set xs \<Longrightarrow> length (f x) = k) \<Longrightarrow> length (concat (map f xs)) = k * length xs"
  by (induction xs) simp_all

lemma length_vertex_values: "length (vertex_values A i) = 62"
  by (simp add: vertex_values_def)

lemma length_vertex_bytes: "length (vertex_bytes A i) = 248"
  by (simp add: vertex_bytes_def length_concat_const [where k = 4] length_vertex_values)

lemma length_body_bytes: "length (body_bytes A n) = n * 248"
  by (simp add: body_bytes_def length_concat_const [where k = 248] length_vertex_bytes)

lemma valid_scenario: "valid_splatset scenario 1"
  by (simp add: valid_splatset_def fields_def scenario_def field_def canonical_def
      wf_ndarray_def)

subsection \<open>The size of the output\<close>

text \<open>
  C1. For a valid splat set of \<open>n\<close> vertices the conversion succeeds and the file is
  the header, one byte for each of its characters, followed by the body; the body is
  the concatenation, vertex after vertex, of the four bytes of each of the 62 values
  of the vertex, so it has \<open>n * 248\<close> bytes and the file has the length of the header
  plus \<open>n * 248\<close> bytes.
\<close>

theorem byte_size_law:
  assumes "valid_splatset d n"
  shows "\<exists>body. convert_checkpoint_to_ply d p fs = (None, fs(p \<mapsto> header_bytes n @ body))
           \<and> body = concat (map (\<lambda>i. concat (map pack_f (vertex_values (arrays_of d) i))) [0..<n])
           \<and> (\<forall>i. length (vertex_values (arrays_of d) i) = 62)
           \<and> (\<forall>v. length (pack_f v) = 4)
           \<and> length body = n * 248
           \<and> length (header_bytes n @ body) = length (header_str n) + n * 248"
proof -
  let ?body = "body_bytes (arrays_of d) n"
  have "convert_checkpoint_to_ply d p fs = (None, fs(p \<mapsto> header_bytes n @ ?body))"
    by (rule convert_encodable [OF valid_encodable [OF assms]])
  moreover have "?body = concat (map (\<lambda>i. concat (map pack_f (vertex_values (arrays_of d) i))) [0..<n])"
    by (simp add: body_bytes_def vertex_bytes_def [abs_def])
  moreover have "length (header_bytes n @ ?body) = length (header_str n) + n * 248"
    by (simp add: header_bytes_def length_body_bytes)
  ultimately show ?thesis
    using length_body_bytes length_vertex_values length_pack_f by blast
qed

theorem byte_size_law_witness:
  "valid_splatset scenario 1 \<and>
   (\<exists>body. convert_checkpoint_to_ply scenario ''out.ply'' Map.empty
              = (None, [''out.ply'' \<mapsto> header_bytes 1 @ body])
      \<and> length body = 248
      \<and> length (header_bytes 1 @ body) = length (header_str 1) + 248)"
  using byte_size_law [OF valid_scenario, of "''out.ply''" Map.empty] valid_scenario
  by auto

lemma pack_f_zero: "pack_f 0 = [0, 0, 0, 0]"
  by (simp add: pack_f_def le_bytes_def quiet_nan_def is_nan_def)

lemma pack_f_values:
  "pack_f 0x3F800000 = [0x00, 0x00, 0x80, 0x3F]" "pack_f 0x40000000 = [0x00, 0x00, 0x00, 0x40]"
  "pack_f 0x40400000 = [0x00, 0x00, 0x40, 0x40]" "pack_f 0x3E4CCCCD = [0xCD, 0xCC, 0x4C, 0x3E]"
  "pack_f 0x3E99999A = [0x9A, 0x99, 0x99, 0x3E]" "pack_f 0x3ECCCCCD = [0xCD, 0xCC, 0xCC, 0x3E]"
  "pack_f 0x3F000000 = [0x00, 0x00, 0x00, 0x3F]" "pack_f 0x3DCCCCCD = [0xCD, 0xCC, 0xCC, 0x3D]"
  by (simp_all add: pack_f_def le_bytes_def quiet_nan_def is_nan_def)

lemma pack_f_signalling_nan: "pack_f 0x7F800001 = [0x01, 0x00, 0xC0, 0x7F]"
  by (simp add: pack_f_def le_bytes_def quiet_nan_def is_nan_def)

lemma scenario_fields:
  "field scenario ''means'' = \<lparr>shape = [1, 3], data = [0x3F800000, 0x40000000, 0x40400000]\<rparr>"
  "field scenario ''opacities'' = \<lparr>shape = [1, 1], data = [0x3F000000]\<rparr>"
  "field scenario ''quats'' = \<lparr>shape = [1, 4], data = [0x3F800000, 0, 0, 0]\<rparr>"
  "field scenario ''scales'' = \<lparr>shape = [1, 3], data = [0x3DCCCCCD, 0x3DCCCCCD, 0x3DCCCCCD]\<rparr>"
  "field scenario ''sh0'' = \<lparr>shape = [1, 3], data = [0x3E4CCCCD, 0x3E99999A, 0x3ECCCCCD]\<rparr>"
  "field scenario ''shN'' = \<lparr>shape = [1, 45], data = replicate 45 0\<rparr>"
  by (simp_all add: scenario_def field_def)

lemma scenario_values:
  "vertex_values (arrays_of scenario) 0 =
     [0x3F800000, 0x40000000, 0x40400000] @ [0, 0, 0] @ [0x3E4CCCCD, 0x3E99999A, 0x3ECCCCCD]
     @ replicate 45 0 @ [0x3F000000] @ [0x3DCCCCCD, 0x3DCCCCCD, 0x3DCCCCCD]
     @ [0x3F800000, 0, 0, 0]"
proof -
  have "map (cell \<lparr>shape = [1, 45], data = replicate 45 0\<rparr> 0) [0..<45] = replicate 45 0"
    by (rule nth_equalityI) (simp_all add: cell_def del: upt_Suc)
  then show ?thesis
    by (simp add: vertex_values_def arrays_of_def scenario_fields as_2d_def ndim_def cell_def
        del: upt_Suc)
qed

lemma replicate_four: "replicate 4 x = [x, x, x, x]"
  by (simp add: numeral_eq_Suc)

lemma concat_replicate_zero: "concat (replicate k [0, 0, 0, 0 :: byte]) = replicate (4 * k) 0"
  by (induction k) (simp_all add: replicate_add replicate_four)

lemma scenario_bytes: "body_bytes (arrays_of scenario) 1 = scenario_body"
proof -
  note p = pack_f_values
  have r: "replicate 12 (0::byte) = [0,0,0,0] @ [0,0,0,0] @ [0,0,0,0]"
    by (simp add: numeral_eq_Suc)
  show ?thesis
    unfolding body_bytes_def vertex_bytes_def scenario_body_def
    by (simp add: scenario_values p pack_f_zero concat_replicate_zero r)
qed

lemma scenario_body_length: "length scenario_body = 248"
  by (simp add: scenario_body_def)

lemma valid_two_flat: "valid_splatset two_flat 2"
  by (simp add: valid_splatset_def fields_def two_flat_def field_def canonical_def
      wf_ndarray_def)

lemma valid_no_vertices: "valid_splatset no_vertices 0"
  by (simp add: valid_splatset_def fields_def no_vertices_def field_def canonical_def
      wf_ndarray_def)

lemma vertex_values_explicit:
  "vertex_values A i =
     [cell (means A) i 0, cell (means A) i 1, cell (means A) i 2, 0, 0, 0,
      cell (sh0 A) i 0, cell (sh0 A) i 1, cell (sh0 A) i 2]
     @ map (cell (shN A) i) [0..<45]
     @ [cell (opacities A) i 0,
        cell (scales A) i 0, cell (scales A) i 1, cell (scales A) i 2,
        cell (quats A) i 0, cell (quats A) i 1, cell (quats A) i 2, cell (quats A) i 3]"
  by (simp add: vertex_values_def del: upt_Suc)

lemma replicate_twelve: "replicate 12 x = [x, x, x, x, x, x, x, x, x, x, x, x]"
  by (simp add: numeral_eq_Suc)

lemma scenario_body_slices:
  "take 12 scenario_body = pack_f 0x3F800000 @ pack_f 0x40000000 @ pack_f 0x40400000"
  "take 12 (drop 12 scenario_body) = replicate 12 0"
  "take 12 (drop 24 scenario_body) = pack_f 0x3E4CCCCD @ pack_f 0x3E99999A @ pack_f 0x3ECCCCCD"
  "take 180 (drop 36 scenario_body) = replicate 180 0"
  "take 4 (drop 216 scenario_body) = pack_f 0x3F000000"
  "take 12 (drop 220 scenario_body) = pack_f 0x3DCCCCCD @ pack_f 0x3DCCCCCD @ pack_f 0x3DCCCCCD"
  "drop 232 scenario_body = pack_f 0x3F800000 @ pack_f 0 @ pack_f 0 @ pack_f 0"
  unfolding scenario_body_def pack_f_values pack_f_zero
  by (simp_all add: replicate_twelve)

subsection \<open>The layout of a record\<close>

text \<open>
  C2. On the scenario of one vertex (positions 1, 2, 3, opacity 0.5, rotation
  1, 0, 0, 0, scales 0.1, base coefficients 0.2, 0.3, 0.4, 45 zero
  coefficients, each as its float32 bit pattern) the conversion succeeds and writes,
  after the header, 248 bytes: bytes 0 to 11 the positions, 12 to 23 zeros, 24 to 35 the
  base coefficients, 36 to 215 zeros, 216 to 219 the opacity, 220 to 231 the scales,
  232 to 247 the rotation, each value as four little-endian bytes. For every valid
  splat set the record of a vertex is, in this order, position, normal (zero), sh0,
  shN, opacity, scale, rotation.
\<close>

theorem record_layout:
  "convert_checkpoint_to_ply scenario p fs = (None, fs(p \<mapsto> header_bytes 1 @ scenario_body))
   \<and> length scenario_body = 248
   \<and> take 12 scenario_body = pack_f 0x3F800000 @ pack_f 0x40000000 @ pack_f 0x40400000
   \<and> take 12 (drop 12 scenario_body) = replicate 12 0
   \<and> take 12 (drop 24 scenario_body) = pack_f 0x3E4CCCCD @ pack_f 0x3E99999A @ pack_f 0x3ECCCCCD
   \<and> take 180 (drop 36 scenario_body) = replicate 180 0
   \<and> take 4 (drop 216 scenario_body) = pack_f 0x3F000000
   \<and> take 12 (drop 220 scenario_body) = pack_f 0x3DCCCCCD @ pack_f 0x3DCCCCCD @ pack_f 0x3DCCCCCD
   \<and> drop 232 scenario_body = pack_f 0x3F800000 @ pack_f 0 @ pack_f 0 @ pack_f 0
   \<and> (\<forall>d n. valid_splatset d n \<longrightarrow>
         convert_checkpoint_to_ply d p fs =
           (None, fs(p \<mapsto> header_bytes n @
              concat (map (\<lambda>i. concat (map pack_f
                ([cell (means (arrays_of d)) i 0, cell (means (arrays_of d)) i 1,
                  cell (means (arrays_of d)) i 2,
                  0, 0, 0,
                  cell (sh0 (arrays_of d)) i 0, cell (sh0 (arrays_of d)) i 1,
                  cell (sh0 (arrays_of d)) i 2]
                 @ map (cell (shN (arrays_of d)) i) [0..<45]
                 @ [cell (opacities (arrays_of d)) i 0,
                    cell (scales (arrays_of d)) i 0, cell (scales (arrays_of d)) i 1,
                    cell (scales (arrays_of d)) i 2,
                    cell (quats (arrays_of d)) i 0, cell (quats (arrays_of d)) i 1,
                    cell (quats (arrays_of d)) i 2, cell (quats (arrays_of d)) i 3])))
              [0..<n]))))"
proof -
  have 1: "convert_checkpoint_to_ply scenario p fs = (None, fs(p \<mapsto> header_bytes 1 @ scenario_body))"
    using convert_encodable [OF valid_encodable [OF valid_scenario], of p fs]
    by (simp only: scenario_bytes)
  have 2: "convert_checkpoint_to_ply d p fs =
           (None, fs(p \<mapsto> header_bytes n @
              concat (map (\<lambda>i. concat (map pack_f
                ([cell (means (arrays_of d)) i 0, cell (means (arrays_of d)) i 1,
                  cell (means (arrays_of d)) i 2,
                  0, 0, 0,
                  cell (sh0 (arrays_of d)) i 0, cell (sh0 (arrays_of d)) i 1,
                  cell (sh0 (arrays_of d)) i 2]
                 @ map (cell (shN (arrays_of d)) i) [0..<45]
                 @ [cell (opacities (arrays_of d)) i 0,
                    cell (scales (arrays_of d)) i 0, cell (scales (arrays_of d)) i 1,
                    cell (scales (arrays_of d)) i 2,
                    cell (quats (arrays_of d)) i 0, cell (quats (arrays_of d)) i 1,
                    cell (quats (arrays_of d)) i 2, cell (quats (arrays_of d)) i 3])))
              [0..<n])))"
    if "valid_splatset d n" for d n
    using convert_encodable [OF valid_encodable [OF that], of p fs]
    by (simp only: body_bytes_def vertex_bytes_def [abs_def] vertex_values_explicit)
  from 1 2 scenario_body_length scenario_body_slices show ?thesis
    by blast
qed

theorem record_layout_witness:
  "valid_splatset two_flat 2 \<and>
   convert_checkpoint_to_ply two_flat ''out.ply'' Map.empty =
     (None, [''out.ply'' \<mapsto> header_bytes 2 @
        (pack_f 1 @ pack_f 2 @ pack_f 3 @ replicate 12 0 @ pack_f 23 @ pack_f 24 @ pack_f 25
         @ replicate 180 0 @ pack_f 7 @ pack_f 17 @ pack_f 18 @ pack_f 19
         @ pack_f 9 @ pack_f 10 @ pack_f 11 @ pack_f 12) @
        (pack_f 4 @ pack_f 5 @ pack_f 6 @ replicate 12 0 @ pack_f 26 @ pack_f 27 @ pack_f 28
         @ replicate 180 0 @ pack_f 8 @ pack_f 20 @ pack_f 21 @ pack_f 22
         @ pack_f 13 @ pack_f 14 @ pack_f 15 @ pack_f 16)])"
proof -
  have f: "arrays_of two_flat =
     \<lparr>means = \<lparr>shape = [2, 3], data = [1, 2, 3, 4, 5, 6]\<rparr>,
      opacities = \<lparr>shape = [2, 1], data = [7, 8]\<rparr>,
      quats = \<lparr>shape = [2, 4], data = [9, 10, 11, 12, 13, 14, 15, 16]\<rparr>,
      scales = \<lparr>shape = [2, 3], data = [17, 18, 19, 20, 21, 22]\<rparr>,
      sh0 = \<lparr>shape = [2, 3], data = [23, 24, 25, 26, 27, 28]\<rparr>,
      shN = \<lparr>shape = [2, 45], data = replicate 90 0\<rparr>\<rparr>"
    by (simp add: arrays_of_def two_flat_def field_def as_2d_def ndim_def)
  have z: "concat (map (pack_f \<circ> cell \<lparr>shape = [2, 45], data = replicate 90 0\<rparr> i) [0..<45])
             = replicate 180 0" if "i < 2" for i
  proof -
    have "map (pack_f \<circ> cell \<lparr>shape = [2, 45], data = replicate 90 0\<rparr> i) [0..<45]
            = replicate 45 [0, 0, 0, 0]"
      using that by (intro nth_equalityI) (simp_all add: cell_def pack_f_zero del: upt_Suc)
    then show ?thesis
      by (simp add: concat_replicate_zero)
  qed
  have z0: "concat (map (pack_f \<circ> cell \<lparr>shape = [2, 45], data = replicate 90 0\<rparr> 0) [0..<45])
             = replicate 180 0"
    and z1: "concat (map (pack_f \<circ> cell \<lparr>shape = [2, 45], data = replicate 90 0\<rparr> (Suc 0)) [0..<45])
             = replicate 180 0"
    by (rule z, simp)+
  have u: "[0..<2] = [0, 1]"
    by (simp add: upt_rec)
  from record_layout [of "''out.ply''" Map.empty] valid_two_flat
  have "convert_checkpoint_to_ply two_flat ''out.ply'' Map.empty =
          (None, [''out.ply'' \<mapsto> header_bytes 2 @
             concat (map (\<lambda>i. concat (map pack_f
                ([cell (means (arrays_of two_flat)) i 0, cell (means (arrays_of two_flat)) i 1,
                  cell (means (arrays_of two_flat)) i 2,
                  0, 0, 0,
                  cell (sh0 (arrays_of two_flat)) i 0, cell (sh0 (arrays_of two_flat)) i 1,
                  cell (sh0 (arrays_of two_flat)) i 2]
                 @ map (cell (shN (arrays_of two_flat)) i) [0..<45]
                 @ [cell (opacities (arrays_of two_flat)) i 0,
                    cell (scales (arrays_of two_flat)) i 0, cell (scales (arrays_of two_flat)) i 1,
                    cell (scales (arrays_of two_flat)) i 2,
                    cell (quats (arrays_of two_flat)) i 0, cell (quats (arrays_of two_flat)) i 1,
                    cell (quats (arrays_of two_flat)) i 2, cell (quats (arrays_of two_flat)) i 3])))
              [0..<2])])"
    by blast
  then show ?thesis
    using valid_two_flat
    by (simp add: f u z0 z1 cell_def pack_f_zero replicate_twelve del: upt_Suc)
qed

lemma rest_names:
  "map (\<lambda>i. ''property float f_rest_'' @ str_nat i) [0..<45] =
     map (\<lambda>name. ''property float '' @ name) (take 45 (drop 9 property_names))"
  by code_simp

lemma header_lines_spec: "header_lines n = spec_header_lines n"
  unfolding header_lines_map rest_names spec_header_lines_def
  by (simp add: property_names_def)

lemma length_property_names: "length property_names = 62"
  by (simp add: property_names_def)

lemma join_nl_terminated:
  "ls \<noteq> [] \<Longrightarrow> join_nl ls @ [newline] = concat (map (\<lambda>l. l @ [newline]) ls)"
  by (induction ls rule: join_nl.induct) simp_all

lemma header_str_lines: "header_str n = concat (map (\<lambda>l. l @ [newline]) (header_lines n))"
  unfolding header_str_def
  by (rule join_nl_terminated) (simp add: header_lines_map)

lemma appends_f_write: "appends (f_write x)"
  by (cases x) (simp_all add: appends_def f_write_def)

lemma appends_then_write:
  assumes "appends w1" "appends w2"
  shows "appends (then_write w1 w2)"
  unfolding appends_def
proof
  fix buf
  from assms(1) obtain bs where 1: "snd (w1 buf) = buf @ bs"
    unfolding appends_def by blast
  from assms(2) obtain cs where 2: "snd (w2 (buf @ bs)) = (buf @ bs) @ cs"
    unfolding appends_def by blast
  show "\<exists>bs. snd (then_write w1 w2 buf) = buf @ bs"
  proof (cases "fst (w1 buf)")
    case None
    with 1 2 have "snd (then_write w1 w2 buf) = buf @ (bs @ cs)"
      by (cases "w1 buf") (simp add: then_write_def)
    then show ?thesis ..
  next
    case (Some e)
    with 1 have "snd (then_write w1 w2 buf) = buf @ bs"
      by (cases "w1 buf") (simp add: then_write_def)
    then show ?thesis ..
  qed
qed

lemma for_loop_Cons: "for_loop (i # is) body = then_write (body i) (for_loop is body)"
  by (rule ext) (simp add: then_write_def)

lemma appends_for_loop:
  assumes "\<And>i. appends (body i)"
  shows "appends (for_loop is body)"
proof (induction "is")
  case Nil
  show ?case by (simp add: appends_def)
next
  case (Cons i "is")
  then show ?case
    unfolding for_loop_Cons by (intro appends_then_write assms)
qed

lemma appends_write_vertex: "appends (write_vertex A i)"
  unfolding write_vertex_def write_fields_def
  by (intro appends_then_write appends_for_loop appends_f_write)

lemma write_ply_header: "\<exists>rest. snd (write_ply A n []) = header_bytes n @ rest"
proof -
  have "appends (for_loop [0..<n] (write_vertex A))"
    by (intro appends_for_loop appends_write_vertex)
  then obtain rest where "snd (for_loop [0..<n] (write_vertex A) (header_bytes n)) = header_bytes n @ rest"
    unfolding appends_def by blast
  then have "snd (write_ply A n []) = header_bytes n @ rest"
    by (simp add: write_ply_def then_write_def f_write_def encode_header header_bytes_def)
  then show ?thesis ..
qed

subsection \<open>The header\<close>

text \<open>
  C3. For every vertex count the lines of the header are \<open>ply\<close>, the format line
  \<open>format binary_little_endian 1.0\<close>, the two comment lines, \<open>element vertex N\<close>, the
  62 \<open>property float\<close> lines with the names x, y, z, nx, ny, nz, f_dc_0 to f_dc_2,
  f_rest_0 to f_rest_44, opacity, scale_0 to scale_2, rot_0 to rot_3 in this order,
  and \<open>end_header\<close>; every line, the last one too, ends with a newline. Whenever the
  converter gets to writing, whatever the values of the arrays, the file starts with
  this header.
\<close>

theorem header_property_order:
  "header_lines n =
     [''ply'', ''format binary_little_endian 1.0'',
      ''comment Generated by checkpoint converter'', ''comment Vertical Axis: z'',
      ''element vertex '' @ str_nat n]
     @ map (\<lambda>name. ''property float '' @ name) property_names
     @ [''end_header'']
   \<and> length property_names = 62
   \<and> header_str n = concat (map (\<lambda>l. l @ [newline]) (header_lines n))
   \<and> (\<forall>d A p fs. validate d = Inr (A, n) \<longrightarrow>
         (\<exists>rest. snd (convert_checkpoint_to_ply d p fs) p
                   = Some (map of_char (header_str n) @ rest)))"
proof -
  have "\<exists>rest. snd (convert_checkpoint_to_ply d p fs) p = Some (map of_char (header_str n) @ rest)"
    if "validate d = Inr (A, n)" for d A p fs
  proof -
    from write_ply_header [of A n] obtain rest
      where "snd (write_ply A n []) = header_bytes n @ rest" ..
    with that have "snd (convert_checkpoint_to_ply d p fs) p = Some (map of_char (header_str n) @ rest)"
      by (auto simp: convert_checkpoint_to_ply_def header_bytes_def split: prod.splits)
    then show ?thesis ..
  qed
  with header_lines_spec [of n] length_property_names header_str_lines [of n]
  show ?thesis
    unfolding spec_header_lines_def by blast
qed

theorem header_property_order_witness:
  "validate two_flat = Inr (arrays_of two_flat, 2) \<and>
   (\<exists>rest. snd (convert_checkpoint_to_ply two_flat ''out.ply'' Map.empty) ''out.ply''
             = Some (map of_char (header_str 2) @ rest))"
  using header_property_order [of 2] encodable_validate(1) [OF valid_encodable [OF valid_two_flat]]
  by blast

lemma drop_concat_const:
  assumes "\<And>x. length (f x) = k"
  shows "drop (i * k) (concat (map f xs)) = concat (map f (drop i xs))"
proof (induction xs arbitrary: i)
  case Nil
  show ?case by simp
next
  case (Cons x xs)
  show ?case
  proof (cases i)
    case 0
    then show ?thesis by simp
  next
    case (Suc j)
    with Cons [of j] show ?thesis by (simp add: assms)
  qed
qed

lemma vertex_bytes_normals: "take 12 (drop 12 (vertex_bytes A i)) = replicate 12 0"
  by (simp add: vertex_bytes_def vertex_values_def pack_f_zero replicate_twelve del: upt_Suc)

lemma body_bytes_normals:
  assumes "i < n"
  shows "take 12 (drop (i * 248 + 12) (body_bytes A n)) = replicate 12 0"
proof -
  have "drop (i * 248) (body_bytes A n) = concat (map (vertex_bytes A) (drop i [0..<n]))"
    unfolding body_bytes_def by (rule drop_concat_const) (rule length_vertex_bytes)
  also have "drop i [0..<n] = [i..<n]"
    by simp
  also from assms have "[i..<n] = i # [Suc i..<n]"
    by (rule upt_conv_Cons)
  finally have "drop (i * 248) (body_bytes A n)
      = vertex_bytes A i @ concat (map (vertex_bytes A) [Suc i..<n])"
    by simp
  then have "drop (i * 248 + 12) (body_bytes A n)
      = drop 12 (vertex_bytes A i) @ concat (map (vertex_bytes A) [Suc i..<n])"
    by (simp add: add.commute [of _ 12] length_vertex_bytes flip: drop_drop)
  then show ?thesis
    by (simp add: length_vertex_bytes vertex_bytes_normals)
qed

subsection \<open>No vertex\<close>

text \<open>
  C7. For a valid splat set of no vertex the conversion succeeds, and the file is the
  header alone, with the line \<open>element vertex 0\<close>, and no byte after it.
\<close>

theorem zero_vertices:
  assumes "valid_splatset d 0"
  shows "convert_checkpoint_to_ply d p fs = (None, fs(p \<mapsto> map of_char (header_str 0)))
         \<and> header_str 0 = concat (map (\<lambda>l. l @ [newline]) (header_lines 0))
         \<and> header_lines 0 =
             [''ply'', ''format binary_little_endian 1.0'',
              ''comment Generated by checkpoint converter'', ''comment Vertical Axis: z'',
              ''element vertex 0'']
             @ map (\<lambda>name. ''property float '' @ name) property_names
             @ [''end_header'']"
proof -
  have "str_nat 0 = ''0''"
    by (simp add: str_nat.simps digit_char_def)
  then have "header_lines 0 =
             [''ply'', ''format binary_little_endian 1.0'',
              ''comment Generated by checkpoint converter'', ''comment Vertical Axis: z'',
              ''element vertex 0'']
             @ map (\<lambda>name. ''property float '' @ name) property_names
             @ [''end_header'']"
    by (simp add: header_lines_spec spec_header_lines_def)
  moreover have "convert_checkpoint_to_ply d p fs = (None, fs(p \<mapsto> map of_char (header_str 0)))"
    using convert_encodable [OF valid_encodable [OF assms], of p fs]
    by (simp add: body_bytes_def header_bytes_def)
  ultimately show ?thesis
    using header_str_lines [of 0] by blast
qed

theorem zero_vertices_witness:
  "valid_splatset no_vertices 0 \<and>
   convert_checkpoint_to_ply no_vertices ''out.ply'' Map.empty
     = (None, [''out.ply'' \<mapsto> map of_char (header_str 0)])"
  using zero_vertices [OF valid_no_vertices, of "''out.ply''" Map.empty] valid_no_vertices
  by simp

subsection \<open>The normals\<close>

text \<open>
  C8. For every input that the converter encodes (a valid splat set, or one with wider
  two-dimensional arrays), the twelve bytes of the three normal components, at offset
  12 of the record of every vertex, are zero, which are the bytes of 0.0, whatever the
  arrays hold.
\<close>

theorem normals_zero:
  assumes "encodable d n"
  shows "\<exists>body. convert_checkpoint_to_ply d p fs = (None, fs(p \<mapsto> header_bytes n @ body))
           \<and> length body = n * 248
           \<and> (\<forall>i<n. take 12 (drop (i * 248 + 12) body) = replicate 12 0)
           \<and> replicate 12 0 = pack_f 0 @ pack_f 0 @ pack_f 0"
proof -
  have "replicate 12 0 = pack_f 0 @ pack_f 0 @ pack_f 0"
    by (simp add: pack_f_zero replicate_twelve)
  with convert_encodable [OF assms, of p fs] length_body_bytes [of "arrays_of d" n]
    body_bytes_normals [of _ n "arrays_of d"]
  show ?thesis by blast
qed

theorem normals_zero_witness:
  "encodable two_flat 2 \<and>
   (\<exists>body. convert_checkpoint_to_ply two_flat ''out.ply'' Map.empty
             = (None, [''out.ply'' \<mapsto> header_bytes 2 @ body])
      \<and> length body = 496
      \<and> take 12 (drop 12 body) = replicate 12 0
      \<and> take 12 (drop 260 body) = replicate 12 0)"
proof -
  have e: "encodable two_flat 2"
    by (rule valid_encodable [OF valid_two_flat])
  from normals_zero [OF e, of "''out.ply''" Map.empty] obtain body
    where b: "convert_checkpoint_to_ply two_flat ''out.ply'' Map.empty
                = (None, [''out.ply'' \<mapsto> header_bytes 2 @ body])"
      "length body = 2 * 248"
      "\<forall>i<2. take 12 (drop (i * 248 + 12) body) = replicate 12 0"
    by blast
  from b(3) have "0 < (2::nat) \<longrightarrow> take 12 (drop (0 * 248 + 12) body) = replicate 12 0"
    "1 < (2::nat) \<longrightarrow> take 12 (drop (1 * 248 + 12) body) = replicate 12 0"
    by blast+
  then have "take 12 (drop 12 body) = replicate 12 0" "take 12 (drop 260 body) = replicate 12 0"
    by simp_all
  with e b(1,2) show ?thesis by auto
qed

lemma nth_concat_const:
  assumes "\<And>x. x \<in> set xs \<Longrightarrow> length (f x) = k" "i < length xs" "j < k"
  shows "concat (map f xs) ! (i * k + j) = f (xs ! i) ! j"
  using assms
proof (induction xs arbitrary: i)
  case Nil
  then show ?case by simp
next
  case (Cons x xs)
  show ?case
  proof (cases i)
    case 0
    with Cons.prems show ?thesis by (simp add: nth_append)
  next
    case (Suc i')
    with Cons.prems have "concat (map f xs) ! (i' * k + j) = f (xs ! i') ! j"
      by (intro Cons.IH) simp_all
    with Suc Cons.prems show ?thesis
      by (simp add: nth_append add.assoc)
  qed
qed

lemma row_fits:
  assumes "i < n" "w \<le> c"
  shows "i * c + w \<le> n * (c::nat)"
proof -
  from assms have "i * c + w \<le> Suc i * c" by simp
  also from assms have "\<dots> \<le> n * c" by (intro mult_le_mono1) simp
  finally show ?thesis .
qed

lemma crop_columns_grid:
  assumes "grid n w a"
  shows "shape (crop_columns a w) = [n, w]"
    and "wf_ndarray (crop_columns a w)"
    and "i < n \<Longrightarrow> j < w \<Longrightarrow> cell (crop_columns a w) i j = cell a i j"
proof -
  from assms obtain c where c: "shape a = [n, c]" "w \<le> c" "length (data a) = n * c"
    by (rule gridE)
  let ?row = "\<lambda>i. take w (drop (i * c) (data a))"
  have len: "length (?row i) = w" if "i < n" for i
    using row_fits [OF that c(2)] c(3) by simp
  from c show "shape (crop_columns a w) = [n, w]"
    by (simp add: crop_columns_def)
  have "length (concat (map ?row [0..<n])) = w * length [0..<n]"
  proof (rule length_concat_const)
    fix x assume "x \<in> set [0..<n]"
    then have "x < n" by simp
    then show "length (?row x) = w" by (rule len)
  qed
  with c show "wf_ndarray (crop_columns a w)"
    by (simp add: crop_columns_def wf_ndarray_def)
  show "cell (crop_columns a w) i j = cell a i j" if "i < n" "j < w"
  proof -
    have "concat (map ?row [0..<n]) ! (i * w + j) = ?row ([0..<n] ! i) ! j"
    proof (rule nth_concat_const)
      fix x assume "x \<in> set [0..<n]"
      then have "x < n" by simp
      then show "length (?row x) = w" by (rule len)
    qed (use that in simp_all)
    also have "\<dots> = data a ! (i * c + j)"
    proof -
      from that(1) have "i * c \<le> n * c" by (intro mult_le_mono1) simp
      with c(3) have "i * c \<le> length (data a)" by simp
      with that show ?thesis by (simp add: nth_drop)
    qed
    finally show ?thesis
      using c by (simp add: cell_def crop_columns_def)
  qed
qed

lemma map_cell_crop:
  assumes "grid n w a" "i < n" "\<forall>j\<in>set js. j < w"
  shows "map (cell (crop_columns a w) i) js = map (cell a i) js"
  using assms(3) by (intro map_cong [OF refl]) (simp add: crop_columns_grid(3) [OF assms(1,2)])

lemma as_2d_grid: "grid n w a \<Longrightarrow> as_2d a w = a"
  by (auto simp: grid_def as_2d_def ndim_def split: list.splits)

lemma grid_flat_or_wide: "grid n w a \<Longrightarrow> flat_or_wide n w a"
  by (auto simp: grid_def flat_or_wide_def split: list.splits)

lemma wide_encodable: "wide_splatset d n \<Longrightarrow> encodable d n"
  by (simp add: wide_splatset_def encodable_def fields_def grid_flat_or_wide)

lemma wide_fields:
  assumes "wide_splatset d n"
  shows "grid n 3 (field d ''means'')" "grid n 1 (field d ''opacities'')"
    "grid n 4 (field d ''quats'')" "grid n 3 (field d ''scales'')"
    "grid n 3 (field d ''sh0'')" "grid n 45 (field d ''shN'')"
    and "\<forall>k\<in>set required_keys. d k \<noteq> None"
  using assms by (simp_all add: wide_splatset_def fields_def required_keys_def)

lemma field_crop_splats:
  "d k \<noteq> None \<Longrightarrow> map_of fields k = Some w \<Longrightarrow>
     field (crop_splats d) k = crop_columns (field d k) w"
  by (auto simp: field_def crop_splats_def)

lemma crop_fields:
  assumes "\<forall>k\<in>set required_keys. d k \<noteq> None"
  shows "field (crop_splats d) ''means'' = crop_columns (field d ''means'') 3"
    "field (crop_splats d) ''opacities'' = crop_columns (field d ''opacities'') 1"
    "field (crop_splats d) ''quats'' = crop_columns (field d ''quats'') 4"
    "field (crop_splats d) ''scales'' = crop_columns (field d ''scales'') 3"
    "field (crop_splats d) ''sh0'' = crop_columns (field d ''sh0'') 3"
    "field (crop_splats d) ''shN'' = crop_columns (field d ''shN'') 45"
  using assms by (simp_all add: field_crop_splats fields_def required_keys_def)

lemma canonical_crop: "grid n w a \<Longrightarrow> canonical n w (crop_columns a w)"
  by (simp add: canonical_def crop_columns_grid)

lemma grid_crop:
  assumes "grid n w a"
  shows "grid n w (crop_columns a w)"
  using crop_columns_grid(1,2) [OF assms] by (simp add: grid_def)

lemma valid_crop_splats:
  assumes "wide_splatset d n"
  shows "valid_splatset (crop_splats d) n"
proof -
  note g = wide_fields [OF assms]
  have "crop_splats d k \<noteq> None" if "k \<in> set required_keys" for k
    using that g(7) by (auto simp: crop_splats_def split: option.splits)
  then show ?thesis
    unfolding valid_splatset_def fields_def
    by (simp add: crop_fields [OF g(7)] required_keys_def canonical_crop g del: One_nat_def)
qed

lemma vertex_values_crop:
  assumes "wide_splatset d n" "i < n"
  shows "vertex_values (arrays_of (crop_splats d)) i = vertex_values (arrays_of d) i"
proof -
  note g = wide_fields [OF assms(1)]
  note i = assms(2)
  have m: "map (cell (crop_columns (field d ''means'') 3) i) [0, 1, 2]
             = map (cell (field d ''means'') i) [0, 1, 2]"
    by (rule map_cell_crop [OF g(1) i]) simp
  have op: "map (cell (crop_columns (field d ''opacities'') 1) i) [0]
             = map (cell (field d ''opacities'') i) [0]"
    by (rule map_cell_crop [OF g(2) i]) simp
  have q: "map (cell (crop_columns (field d ''quats'') 4) i) [0, 1, 2, 3]
             = map (cell (field d ''quats'') i) [0, 1, 2, 3]"
    by (rule map_cell_crop [OF g(3) i]) simp
  have sc: "map (cell (crop_columns (field d ''scales'') 3) i) [0, 1, 2]
             = map (cell (field d ''scales'') i) [0, 1, 2]"
    by (rule map_cell_crop [OF g(4) i]) simp
  have s0: "map (cell (crop_columns (field d ''sh0'') 3) i) [0, 1, 2]
             = map (cell (field d ''sh0'') i) [0, 1, 2]"
    by (rule map_cell_crop [OF g(5) i]) simp
  have sN: "map (cell (crop_columns (field d ''shN'') 45) i) [0..<45]
             = map (cell (field d ''shN'') i) [0..<45]"
    by (rule map_cell_crop [OF g(6) i]) simp
  show ?thesis
    unfolding vertex_values_def arrays_of_def arrays.simps crop_fields [OF g(7)]
      as_2d_grid [OF g(1)] as_2d_grid [OF g(2)] as_2d_grid [OF g(3)]
      as_2d_grid [OF g(4)] as_2d_grid [OF g(5)] as_2d_grid [OF g(6)]
      as_2d_grid [OF grid_crop [OF g(1)]] as_2d_grid [OF grid_crop [OF g(2)]]
      as_2d_grid [OF grid_crop [OF g(3)]] as_2d_grid [OF grid_crop [OF g(4)]]
      as_2d_grid [OF grid_crop [OF g(5)]] as_2d_grid [OF grid_crop [OF g(6)]]
      m op q sc s0 sN ..
qed

lemma body_bytes_crop:
  assumes "wide_splatset d n"
  shows "body_bytes (arrays_of (crop_splats d)) n = body_bytes (arrays_of d) n"
  unfolding body_bytes_def vertex_bytes_def [abs_def]
  by (rule arg_cong [where f = concat], rule map_cong [OF refl])
     (simp add: vertex_values_crop [OF assms])

lemma wide_wide_scenario: "wide_splatset wide_scenario 1"
  by (simp add: wide_splatset_def fields_def wide_scenario_def scenario_def field_def grid_def
      wf_ndarray_def)

lemma wide_scenario_values:
  "vertex_values (arrays_of wide_scenario) 0 = vertex_values (arrays_of scenario) 0"
proof -
  have f: "field wide_scenario ''means'' = \<lparr>shape = [1, 5],
             data = [0x3F800000, 0x40000000, 0x40400000, 0x40800000, 0x40A00000]\<rparr>"
    "field wide_scenario ''opacities'' = \<lparr>shape = [1, 2], data = [0x3F000000, 0x3F400000]\<rparr>"
    "field wide_scenario ''quats'' = field scenario ''quats''"
    "field wide_scenario ''scales'' = field scenario ''scales''"
    "field wide_scenario ''sh0'' = field scenario ''sh0''"
    "field wide_scenario ''shN'' = field scenario ''shN''"
    by (simp_all add: wide_scenario_def field_def)
  show ?thesis
    unfolding vertex_values_def arrays_of_def arrays.simps f
    by (simp add: scenario_fields as_2d_def ndim_def cell_def del: upt_Suc)
qed

subsection \<open>Arrays with more columns than the format has\<close>

text \<open>
  C10. When every array is two-dimensional with \<open>n\<close> rows and at least its canonical
  number of columns (means of shape \<open>(n, 5)\<close>, say), the validation passes, the
  conversion succeeds, and the file holds the first canonical columns of every row:
  it is the file written for the same arrays cut down to their canonical columns,
  which form a valid splat set.
\<close>

theorem extra_columns_ignored:
  assumes "wide_splatset d n"
  shows "validate d = Inr (arrays_of d, n)
         \<and> convert_checkpoint_to_ply d p fs
             = (None, fs(p \<mapsto> header_bytes n @ body_bytes (arrays_of d) n))
         \<and> valid_splatset (crop_splats d) n
         \<and> convert_checkpoint_to_ply d p fs = convert_checkpoint_to_ply (crop_splats d) p fs"
proof -
  note e = wide_encodable [OF assms]
  note v = valid_crop_splats [OF assms]
  have "convert_checkpoint_to_ply (crop_splats d) p fs
          = (None, fs(p \<mapsto> header_bytes n @ body_bytes (arrays_of d) n))"
    using convert_encodable [OF valid_encodable [OF v], of p fs]
    by (simp only: body_bytes_crop [OF assms])
  with encodable_validate(1) [OF e] convert_encodable [OF e, of p fs] v
  show ?thesis by simp
qed

theorem extra_columns_ignored_witness:
  "wide_splatset wide_scenario 1 \<and>
   shape (field wide_scenario ''means'') = [1, 5] \<and>
   shape (field wide_scenario ''opacities'') = [1, 2] \<and>
   convert_checkpoint_to_ply wide_scenario ''out.ply'' Map.empty
     = (None, [''out.ply'' \<mapsto> header_bytes 1 @ scenario_body])"
proof -
  have "body_bytes (arrays_of wide_scenario) 1 = body_bytes (arrays_of scenario) 1"
    by (simp add: body_bytes_def vertex_bytes_def wide_scenario_values)
  with extra_columns_ignored [OF wide_wide_scenario, of "''out.ply''" Map.empty]
  have "convert_checkpoint_to_ply wide_scenario ''out.ply'' Map.empty
     = (None, [''out.ply'' \<mapsto> header_bytes 1 @ scenario_body])"
    by (simp only: scenario_bytes)
  moreover have "shape (field wide_scenario ''means'') = [1, 5]"
    "shape (field wide_scenario ''opacities'') = [1, 2]"
    by (simp_all add: wide_scenario_def field_def)
  ultimately show ?thesis
    using wide_wide_scenario by simp
qed

lemma lookup_cases:
  assumes "map_option to_numpy (d k) = map_option to_numpy (d' k)"
  obtains "lookup d k = Inl (KeyError k)" "lookup d' k = Inl (KeyError k)"
  | v v' where "lookup d k = Inr v" "lookup d' k = Inr v'" "to_numpy v = to_numpy v'"
  using assms by (cases "d k"; cases "d' k") (auto simp: lookup_def)

lemma load_arrays_cong:
  assumes "\<forall>k\<in>set required_keys. map_option to_numpy (d k) = map_option to_numpy (d' k)"
  shows "load_arrays d = load_arrays d'"
proof -
  from assms have k: "map_option to_numpy (d ''means'') = map_option to_numpy (d' ''means'')"
    "map_option to_numpy (d ''opacities'') = map_option to_numpy (d' ''opacities'')"
    "map_option to_numpy (d ''quats'') = map_option to_numpy (d' ''quats'')"
    "map_option to_numpy (d ''scales'') = map_option to_numpy (d' ''scales'')"
    "map_option to_numpy (d ''sh0'') = map_option to_numpy (d' ''sh0'')"
    "map_option to_numpy (d ''shN'') = map_option to_numpy (d' ''shN'')"
    by (simp_all add: required_keys_def)
  show ?thesis
    unfolding load_arrays_def
    by (rule lookup_cases [of d "''means''" d', OF k(1)];
        rule lookup_cases [of d "''opacities''" d', OF k(2)];
        rule lookup_cases [of d "''quats''" d', OF k(3)];
        rule lookup_cases [of d "''scales''" d', OF k(4)];
        rule lookup_cases [of d "''sh0''" d', OF k(5)];
        rule lookup_cases [of d "''shN''" d', OF k(6)])
       simp_all
qed

lemma convert_result:
  "\<exists>r out. \<forall>p fs. convert_checkpoint_to_ply d p fs
              = (r, case out of None \<Rightarrow> fs | Some bs \<Rightarrow> fs(p \<mapsto> bs))"
proof (cases "validate d")
  case (Inl e)
  then have "\<forall>p fs. convert_checkpoint_to_ply d p fs
              = (Some e, case None of None \<Rightarrow> fs | Some bs \<Rightarrow> fs(p \<mapsto> bs))"
    by (simp add: convert_checkpoint_to_ply_def)
  then show ?thesis by blast
next
  case (Inr x)
  obtain A n where x: "x = (A, n)" by (cases x)
  obtain r buf where w: "write_ply A n [] = (r, buf)" by (cases "write_ply A n []")
  from Inr x w have "\<forall>p fs. convert_checkpoint_to_ply d p fs
              = (r, case Some buf of None \<Rightarrow> fs | Some bs \<Rightarrow> fs(p \<mapsto> bs))"
    by (simp add: convert_checkpoint_to_ply_def)
  then show ?thesis by blast
qed

subsection \<open>Determinism\<close>

text \<open>
  C9. The outcome of a conversion (success or the exception raised) and the bytes of
  the file it writes are determined by the six arrays alone: two inputs that hold the
  same six arrays (as tensors or as arrays, whatever else the dictionaries hold)
  give, for every output path and every file system, the same outcome and the same
  bytes; the file system changes at the output path only.
\<close>

theorem deterministic_output:
  assumes "\<forall>k\<in>set required_keys. map_option to_numpy (d k) = map_option to_numpy (d' k)"
  shows "\<exists>r out.
           (\<forall>p fs. convert_checkpoint_to_ply d p fs
                      = (r, case out of None \<Rightarrow> fs | Some bs \<Rightarrow> fs(p \<mapsto> bs))) \<and>
           (\<forall>p fs. convert_checkpoint_to_ply d' p fs
                      = (r, case out of None \<Rightarrow> fs | Some bs \<Rightarrow> fs(p \<mapsto> bs)))"
proof -
  have "validate d = validate d'"
    by (simp add: validate_def load_arrays_cong [OF assms])
  then have "convert_checkpoint_to_ply d p fs = convert_checkpoint_to_ply d' p fs" for p fs
    by (simp add: convert_checkpoint_to_ply_def)
  with convert_result [of d] show ?thesis
    by simp
qed

theorem deterministic_output_witness:
  "list_all (\<lambda>k. map_option to_numpy (scenario k) = map_option to_numpy (scenario_tensor k))
     required_keys \<and>
   scenario ''means'' \<noteq> scenario_tensor ''means'' \<and>
   scenario ''step'' \<noteq> scenario_tensor ''step'' \<and>
   fst (convert_checkpoint_to_ply scenario ''a.ply'' Map.empty)
     = fst (convert_checkpoint_to_ply scenario_tensor ''b.ply'' Map.empty) \<and>
   snd (convert_checkpoint_to_ply scenario ''a.ply'' Map.empty) ''a.ply''
     = snd (convert_checkpoint_to_ply scenario_tensor ''b.ply'' Map.empty) ''b.ply''"
proof -
  have h: "\<forall>k\<in>set required_keys.
      map_option to_numpy (scenario k) = map_option to_numpy (scenario_tensor k)"
    by (simp add: required_keys_def scenario_tensor_def scenario_def)
  from deterministic_output [OF h] obtain r out where
    "convert_checkpoint_to_ply scenario ''a.ply'' Map.empty
       = (r, case out of None \<Rightarrow> Map.empty | Some bs \<Rightarrow> [''a.ply'' \<mapsto> bs])"
    "convert_checkpoint_to_ply scenario_tensor ''b.ply'' Map.empty
       = (r, case out of None \<Rightarrow> Map.empty | Some bs \<Rightarrow> [''b.ply'' \<mapsto> bs])"
    by blast
  moreover have "scenario ''means'' \<noteq> scenario_tensor ''means''"
    "scenario ''step'' \<noteq> scenario_tensor ''step''"
    by (simp_all add: scenario_tensor_def scenario_def)
  ultimately show ?thesis
    using h by (cases out) (simp_all add: list_all_iff)
qed

lemma ensure_2d_as_2d: "ensure_2d a w = Inr a' \<Longrightarrow> a' = as_2d a w"
  by (auto simp: ensure_2d_def as_2d_def reshape_rows_def Let_def split: if_splits)

lemma rows_ofD:
  assumes "rows_of d k w = Some r"
  shows "d k \<noteq> None" "ensure_2d (field d k) w = Inr (as_2d (field d k) w)"
    "shape0 (as_2d (field d k) w) = Inr r"
proof -
  from assms obtain v where v: "d k = Some v"
    by (auto simp: rows_of_def split: option.splits)
  with assms obtain a' where a: "ensure_2d (to_numpy v) w = Inr a'" "shape0 a' = Inr r"
    by (cases "ensure_2d (to_numpy v) w") (auto simp: rows_of_def split: sum.splits)
  from v show "d k \<noteq> None" by simp
  from a(1) have "a' = as_2d (to_numpy v) w" by (rule ensure_2d_as_2d)
  with a v show "ensure_2d (field d k) w = Inr (as_2d (field d k) w)"
    "shape0 (as_2d (field d k) w) = Inr r"
    by (simp_all add: field_def)
qed

lemma validate_rows:
  assumes "rows_of d ''means'' 3 = Some n"
    "rows_of d ''opacities'' 1 = Some r1" "rows_of d ''quats'' 4 = Some r2"
    "rows_of d ''scales'' 3 = Some r3" "rows_of d ''sh0'' 3 = Some r4"
    "rows_of d ''shN'' 45 = Some r5"
  shows "validate d =
     (case find (\<lambda>(name, r). r \<noteq> n)
             [(''Opacities'', r1), (''Quats'', r2), (''Scales'', r3), (''SH0'', r4), (''SHN'', r5)] of
        Some (name, m) \<Rightarrow> Inl (AssertionError (mismatch_message name m n))
      | None \<Rightarrow> Inr (arrays_of d, n))"
proof -
  note m = rows_ofD [OF assms(1)] and op = rows_ofD [OF assms(2)] and q = rows_ofD [OF assms(3)]
    and sc = rows_ofD [OF assms(4)] and s0 = rows_ofD [OF assms(5)] and sN = rows_ofD [OF assms(6)]
  have "\<forall>k\<in>set required_keys. d k \<noteq> None"
    using m(1) op(1) q(1) sc(1) s0(1) sN(1) by (simp add: required_keys_def)
  note l = load_arrays_present [OF this]
  have e: "ensure_shapes \<lparr>means = field d ''means'', opacities = field d ''opacities'',
          quats = field d ''quats'', scales = field d ''scales'',
          sh0 = field d ''sh0'', shN = field d ''shN''\<rparr> = Inr (arrays_of d)"
    unfolding ensure_shapes_def arrays_of_def arrays.simps m(2) op(2) q(2) sc(2) s0(2) sN(2)
      bind_res_Inr ..
  have v: "verify_rows (arrays_of d) =
     (case find (\<lambda>(name, r). r \<noteq> n)
             [(''Opacities'', r1), (''Quats'', r2), (''Scales'', r3), (''SH0'', r4), (''SHN'', r5)] of
        Some (name, m) \<Rightarrow> Inl (AssertionError (mismatch_message name m n))
      | None \<Rightarrow> Inr n)"
    unfolding verify_rows_def assert_rows_def arrays_of_def arrays.simps
      m(3) op(3) q(3) sc(3) s0(3) sN(3) bind_res_Inr
    by simp
  show ?thesis
    unfolding validate_def l e bind_res_Inr v
    by (simp split: option.splits)
qed

lemma getitems_error: "getitems a i js = Inl e \<Longrightarrow> e = IndexError"
proof (induction js arbitrary: e)
  case Nil
  then show ?case by simp
next
  case (Cons j js)
  then show ?case
    by (auto simp: bind_res_def getitem2_def Let_def split: sum.splits list.splits if_splits)
qed

lemma struct_pack_error: "struct_pack xs = Inl e \<Longrightarrow> e = StructError"
proof (induction xs arbitrary: e)
  case Nil
  then show ?case by simp
next
  case (Cons x xs)
  then show ?case
    by (auto simp: bind_res_def to_float_def split: sum.splits list.splits)
qed

lemma raises_only_f_write:
  "(\<And>e. x = Inl e \<Longrightarrow> e \<in> S) \<Longrightarrow> raises_only S (f_write x)"
  by (cases x) (simp_all add: raises_only_def f_write_def)

lemma raises_only_write_fields: "raises_only {IndexError, StructError} (write_fields a i js)"
  unfolding write_fields_def
  by (rule raises_only_f_write)
     (auto simp: bind_res_def split: sum.splits dest: getitems_error struct_pack_error)

lemma raises_only_then_write:
  assumes "raises_only S w1" "raises_only S w2"
  shows "raises_only S (then_write w1 w2)"
  unfolding raises_only_def
proof (intro allI impI)
  fix buf e
  assume a: "fst (then_write w1 w2 buf) = Some e"
  obtain r b where w1: "w1 buf = (r, b)" by (cases "w1 buf")
  show "e \<in> S"
  proof (cases r)
    case None
    with a w1 have "fst (w2 b) = Some e" by (simp add: then_write_def)
    with assms(2) show ?thesis by (simp add: raises_only_def)
  next
    case (Some e')
    with a w1 have "fst (w1 buf) = Some e" by (simp add: then_write_def)
    with assms(1) show ?thesis by (simp add: raises_only_def)
  qed
qed

lemma raises_only_for_loop:
  assumes "\<And>i. raises_only S (body i)"
  shows "raises_only S (for_loop is body)"
proof (induction "is")
  case Nil
  show ?case by (simp add: raises_only_def)
next
  case (Cons i "is")
  then show ?case
    unfolding for_loop_Cons by (intro raises_only_then_write assms)
qed

lemma raises_only_write_ply: "raises_only {IndexError, StructError} (write_ply A n)"
proof -
  have z: "raises_only {IndexError, StructError} (f_write (struct_pack [scalar 0, scalar 0, scalar 0]))"
    by (rule raises_only_f_write) (auto dest: struct_pack_error)
  have v: "raises_only {IndexError, StructError} (write_vertex A i)" for i
    unfolding write_vertex_def
    by (intro raises_only_then_write raises_only_for_loop raises_only_write_fields z)
  have h: "raises_only {IndexError, StructError} (f_write (encode_ascii (header_str n)))"
    by (rule raises_only_f_write) (simp add: encode_header)
  show ?thesis
    unfolding write_ply_def
    by (intro raises_only_then_write raises_only_for_loop h v)
qed

lemma assertion_before_open:
  assumes "fst (convert_checkpoint_to_ply d p fs) = Some (AssertionError msg)"
  shows "snd (convert_checkpoint_to_ply d p fs) = fs"
proof (cases "validate d")
  case (Inl e)
  then show ?thesis by (simp add: convert_checkpoint_to_ply_def)
next
  case (Inr x)
  obtain A n where x: "x = (A, n)" by (cases x)
  obtain r buf where w: "write_ply A n [] = (r, buf)" by (cases "write_ply A n []")
  with assms Inr x have "fst (write_ply A n []) = Some (AssertionError msg)"
    by (simp add: convert_checkpoint_to_ply_def)
  with raises_only_write_ply [of A n] have "AssertionError msg \<in> {IndexError, StructError}"
    unfolding raises_only_def by blast
  then show ?thesis by simp
qed

subsection \<open>Arrays of different row counts\<close>

text \<open>
  C4. Let every one of the six arrays have a leading dimension once the
  one-dimensional ones are reshaped, \<open>n\<close> for the positions. When the leading
  dimension of some other array differs from \<open>n\<close>, the conversion fails with the
  assertion error of the first such array in the order opacities, quats, scales, sh0,
  shN; its message names the array and gives both counts, the array's and \<open>n\<close>; and
  the file system is as it was: no file is opened. On every input, a conversion that
  ends with an assertion error has written nothing: the assertions all come before
  the file is opened.
\<close>

theorem row_mismatch_rejected:
  assumes "rows_of d ''means'' 3 = Some n"
    and "rows_of d ''opacities'' 1 = Some r1" and "rows_of d ''quats'' 4 = Some r2"
    and "rows_of d ''scales'' 3 = Some r3" and "rows_of d ''sh0'' 3 = Some r4"
    and "rows_of d ''shN'' 45 = Some r5"
    and "find (\<lambda>(name, r). r \<noteq> n)
           [(''Opacities'', r1), (''Quats'', r2), (''Scales'', r3), (''SH0'', r4), (''SHN'', r5)]
         = Some (name, m)"
  shows "convert_checkpoint_to_ply d p fs =
           (Some (AssertionError
              (name @ '' shape mismatch: '' @ str_nat m @ '' vs '' @ str_nat n)), fs)
         \<and> m \<noteq> n
         \<and> (\<forall>d' p' fs' msg.
               fst (convert_checkpoint_to_ply d' p' fs') = Some (AssertionError msg) \<longrightarrow>
               snd (convert_checkpoint_to_ply d' p' fs') = fs')"
proof -
  from assms(7) have "m \<noteq> n"
    by (auto split: if_splits)
  moreover have "validate d = Inl (AssertionError (mismatch_message name m n))"
    unfolding validate_rows [OF assms(1-6)] assms(7) by simp
  ultimately show ?thesis
    using assertion_before_open
    by (simp add: convert_checkpoint_to_ply_def mismatch_message_def)
qed

theorem row_mismatch_rejected_witness:
  "rows_of two_quats ''means'' 3 = Some 1 \<and> rows_of two_quats ''opacities'' 1 = Some 1 \<and>
   rows_of two_quats ''quats'' 4 = Some 2 \<and> rows_of two_quats ''scales'' 3 = Some 1 \<and>
   rows_of two_quats ''sh0'' 3 = Some 1 \<and> rows_of two_quats ''shN'' 45 = Some 1 \<and>
   convert_checkpoint_to_ply two_quats ''out.ply'' Map.empty =
     (Some (AssertionError ''Quats shape mismatch: 2 vs 1''), Map.empty)"
proof -
  have r: "rows_of two_quats ''means'' 3 = Some 1" "rows_of two_quats ''opacities'' 1 = Some 1"
    "rows_of two_quats ''quats'' 4 = Some 2" "rows_of two_quats ''scales'' 3 = Some 1"
    "rows_of two_quats ''sh0'' 3 = Some 1" "rows_of two_quats ''shN'' 45 = Some 1"
    by (simp_all add: rows_of_def two_quats_def scenario_def ensure_2d_def ndim_def shape0_def)
  have f: "find (\<lambda>(name, r). r \<noteq> (1::nat))
           [(''Opacities'', 1), (''Quats'', 2), (''Scales'', 1), (''SH0'', 1), (''SHN'', 1)]
         = Some (''Quats'', 2)"
    by simp
  have s: "str_nat (Suc 0) = ''1''" "str_nat 2 = ''2''"
    by (simp_all add: str_nat.simps digit_char_def)
  from row_mismatch_rejected [OF r f, of "''out.ply''" Map.empty] r show ?thesis
    by (simp add: s)
qed












subsection \<open>The width of the arrays\<close>




subsection \<open>Missing keys\<close>

lemma convert_cong:
  assumes "\<forall>k\<in>set required_keys. map_option to_numpy (d k) = map_option to_numpy (d' k)"
  shows "convert_checkpoint_to_ply d p fs = convert_checkpoint_to_ply d' p fs"
  by (simp add: convert_checkpoint_to_ply_def validate_def load_arrays_cong [OF assms])

lemma main_complete:
  "main [''splats'' \<mapsto> splats_tensors] p fs
     = \<lparr>raised = None, warning = None, files = fs(p \<mapsto> header_bytes 1 @ scenario_body)\<rparr>"
proof -
  let ?splats = "splats_tensors
       (''opacities'' \<mapsto> Tensor \<lparr>shape = [1, 1], data = [0x3F000000]\<rparr>,
        ''sh0'' \<mapsto> Tensor \<lparr>shape = [1, 3], data = [0x3E4CCCCD, 0x3E99999A, 0x3ECCCCCD]\<rparr>,
        ''shN'' \<mapsto> Tensor \<lparr>shape = [1, 45], data = replicate 45 0\<rparr>)"
  have e: "extract_data_from_ckpt [''splats'' \<mapsto> splats_tensors] = Inr ?splats"
    by (simp add: extract_data_from_ckpt_def lookup_def shape0_def splats_tensors_def)
  have m: "filter (\<lambda>key. ?splats key = None) required_keys = []"
    by (simp add: required_keys_def splats_tensors_def)
  have "\<forall>k\<in>set required_keys. map_option to_numpy (?splats k) = map_option to_numpy (scenario k)"
    by (simp add: required_keys_def splats_tensors_def scenario_def)
  from convert_cong [OF this, of p fs]
  have "convert_checkpoint_to_ply ?splats p fs = (None, fs(p \<mapsto> header_bytes 1 @ scenario_body))"
    using convert_encodable [OF valid_encodable [OF valid_scenario], of p fs]
    by (simp only: scenario_bytes)
  with e m show ?thesis
    by (simp add: main_def del: fun_upd_apply)
qed

text \<open>
  C6. The check of the required keys in \<^verbatim>\<open>main\<close> comes after
  \<^verbatim>\<open>extract_data_from_ckpt\<close>, which reads four of the six keys and reshapes three
  arrays. Without \<open>opacities\<close> the run ends with KeyError and the warning is not
  printed; without \<open>quats\<close> and with opacities of a wrong length it ends with the
  RuntimeError of the reshaping and the missing key is not reported. Only without
  \<open>quats\<close> or \<open>scales\<close> alone does the check report the missing key. No run writes a
  file.
\<close>

theorem presence_check_after_extraction:
  "main ckpt_no_opacities p fs = \<lparr>raised = Some (KeyError ''opacities''), warning = None, files = fs\<rparr>
   \<and> main ckpt_no_quats_long_opacities p fs = \<lparr>raised = Some RuntimeError, warning = None, files = fs\<rparr>
   \<and> main ckpt_no_quats p fs
       = \<lparr>raised = None,
          warning = Some (''Warning: Missing required keys: ['' @ [CHR 0x27] @ ''quats'' @ [CHR 0x27] @ '']''),
          files = fs\<rparr>"
  by (simp add: main_def extract_data_from_ckpt_def lookup_def shape0_def
      ckpt_no_opacities_def ckpt_no_quats_long_opacities_def ckpt_no_quats_def splats_tensors_def
      required_keys_def repr_list_def)

end
